theory Spec2Isabelle
  imports Main
begin

section \<open>Values, objects and thrown errors\<close>

text \<open>
  The data layer moves loosely typed JavaScript objects between the application, the
  local SQLite store and the remote service. A value is \<open>null\<close>, \<open>undefined\<close>, a number
  (timestamps and counters are integers), a string or a boolean. An object is a list of
  key/value pairs in insertion order, which is what \<open>Object.keys\<close> and \<open>Object.values\<close>
  enumerate.
\<close>

datatype val = VNull | VUndefined | VNum int | VStr string | VBool bool

type_synonym obj = "(string \<times> val) list"

text \<open>What a rejected promise carries: an \<open>Error\<close> with its message, or some other value.\<close>

datatype thrown = Error string | NonError

text \<open>Assignment \<open>o[k] = v\<close>: an existing key keeps its position, a new key goes last.\<close>

fun put :: "'k \<Rightarrow> 'v \<Rightarrow> ('k \<times> 'v) list \<Rightarrow> ('k \<times> 'v) list" where
  "put k v [] = [(k, v)]"
| "put k v (p # ps) = (if fst p = k then (k, v) # ps else p # put k v ps)"

text \<open>
  An object literal \<open>{...a, k1: v1, k2: v2}\<close> assigns its entries from left to right to
  an empty object.
\<close>

definition literal :: "(string \<times> val) list \<Rightarrow> obj" where
  "literal kvs = foldl (\<lambda>ob kv. put (fst kv) (snd kv) ob) [] kvs"

text \<open>Property read \<open>o.k\<close>: a missing key reads as \<open>undefined\<close>.\<close>

definition get :: "obj \<Rightarrow> string \<Rightarrow> val" where
  "get ob k = (case map_of ob k of None \<Rightarrow> VUndefined | Some v \<Rightarrow> v)"

text \<open>The rest of a destructuring \<open>const {k1, k2, ...rest} = o\<close>.\<close>

definition omit :: "string list \<Rightarrow> obj \<Rightarrow> obj" where
  "omit ks ob = filter (\<lambda>kv. fst kv \<notin> set ks) ob"

text \<open>JavaScript truthiness, as \<open>if (record.deleted)\<close> and \<open>if (_limit)\<close> use it.\<close>

fun truthy :: "val \<Rightarrow> bool" where
  "truthy VNull = False"
| "truthy VUndefined = False"
| "truthy (VNum n) = (n \<noteq> 0)"
| "truthy (VStr s) = (s \<noteq> [])"
| "truthy (VBool b) = b"

text \<open>
  \<open>a > b\<close> on the timestamps the sync manager compares. Both sides are numbers in every
  record the adapters produce (\<open>BaseRecord.updated_at: number\<close>); \<open>null\<close> and booleans are
  converted as JavaScript converts them, \<open>undefined\<close> is \<open>NaN\<close>, and a comparison that
  involves a string is not modelled (it reads as false).
\<close>

fun to_number :: "val \<Rightarrow> int option" where
  "to_number VNull = Some 0"
| "to_number VUndefined = None"
| "to_number (VNum n) = Some n"
| "to_number (VStr s) = None"
| "to_number (VBool b) = Some (if b then 1 else 0)"

definition js_gt :: "val \<Rightarrow> val \<Rightarrow> bool" where
  "js_gt a b = (case to_number a of None \<Rightarrow> False
     | Some x \<Rightarrow> (case to_number b of None \<Rightarrow> False | Some y \<Rightarrow> y < x))"

section \<open>The embedded store\<close>

text \<open>
  \<open>ColumnDefinition\<close> and \<open>TableSchema\<close> of \<open>types.ts\<close>. An optional flag that is left out
  is falsy, an index list that is left out is empty; \<open>references\<close> is never read by the
  code and is left out.
\<close>

record column_definition =
  ctype :: string
  primaryKey :: bool
  autoIncrement :: bool
  notNull :: bool
  unique :: bool
  defaultValue :: "val option"

record index_definition =
  iname :: string
  icolumns :: "string list"
  iunique :: bool

record table_schema =
  name :: string
  columns :: "(string \<times> column_definition) list"
  indexes :: "index_definition list"

text \<open>
  The live store as SQLite presents it to the drivers: named tables, each with its
  declared columns and its rows in insertion order, and named indexes. A row is the
  object \<open>SELECT *\<close> returns for it: every column of the table, in column order.
\<close>

record table =
  tcolumns :: "(string \<times> column_definition) list"
  trows :: "obj list"

record index_info =
  itable :: string
  icols :: "string list"
  iuniq :: bool

record database =
  tables :: "(string \<times> table) list"
  indices :: "(string \<times> index_info) list"

text \<open>
  Parameter binding. The drivers bind a boolean as the integer 0 or 1; \<open>undefined\<close> is
  bound as \<open>NULL\<close>.
\<close>

fun bind :: "val \<Rightarrow> val" where
  "bind (VBool b) = VNum (if b then 1 else 0)"
| "bind VUndefined = VNull"
| "bind VNull = VNull"
| "bind (VNum n) = VNum n"
| "bind (VStr s) = VStr s"

text \<open>The comparison \<open>column = ?\<close>: never true when either side is \<open>NULL\<close>.\<close>

definition sql_eq :: "val \<Rightarrow> val \<Rightarrow> bool" where
  "sql_eq a b = (a \<noteq> VNull \<and> b \<noteq> VNull \<and> a = b)"

definition default_of :: "column_definition \<Rightarrow> val" where
  "default_of d = (case defaultValue d of None \<Rightarrow> VNull | Some v \<Rightarrow> bind v)"

text \<open>
  An \<open>INTEGER PRIMARY KEY\<close> column is the row id: a row stored without a value for it
  gets one more than the largest row id of the table.
\<close>

definition is_rowid :: "column_definition \<Rightarrow> bool" where
  "is_rowid d = (primaryKey d \<and> ctype d = ''INTEGER'')"

definition next_rowid :: "string \<Rightarrow> obj list \<Rightarrow> int" where
  "next_rowid c rows =
     1 + foldr (\<lambda>r m. case get r c of VNum n \<Rightarrow> max n m | _ \<Rightarrow> m) rows 0"

text \<open>
  The constraints a stored row is checked against: a \<open>NOT NULL\<close> column holds a value,
  and a \<open>UNIQUE\<close> or \<open>PRIMARY KEY\<close> column holds a value no other row has (\<open>NULL\<close>s are
  never equal).
\<close>

definition violates :: "(string \<times> column_definition) list \<Rightarrow> obj list \<Rightarrow> obj \<Rightarrow> bool" where
  "violates cols others r =
     list_ex (\<lambda>cd. (notNull (snd cd) \<and> get r (fst cd) = VNull) \<or>
                   ((unique (snd cd) \<or> primaryKey (snd cd)) \<and>
                    list_ex (\<lambda>ot. sql_eq (get ot (fst cd)) (get r (fst cd))) others)) cols"

definition find_table :: "database \<Rightarrow> string \<Rightarrow> table option" where
  "find_table d t = map_of (tables d) t"

definition has_columns :: "table \<Rightarrow> string list \<Rightarrow> bool" where
  "has_columns tb cs = list_all (\<lambda>c. c \<in> set (map fst (tcolumns tb))) cs"

subsection \<open>INSERT\<close>

text \<open>
  \<open>INSERT INTO t (cols) VALUES (?, ...)\<close> with its bound parameters. A column the
  statement does not name gets its declared default. The statement fails on an unknown
  table or column and on a violated constraint, and then changes nothing.
\<close>

definition stored_row :: "table \<Rightarrow> obj \<Rightarrow> obj" where
  "stored_row tb given =
     map (\<lambda>cd. (fst cd,
            (case map_of given (fst cd) of
               None \<Rightarrow> (if is_rowid (snd cd) then VNum (next_rowid (fst cd) (trows tb))
                        else default_of (snd cd))
             | Some v \<Rightarrow> (if is_rowid (snd cd) \<and> v = VNull
                          then VNum (next_rowid (fst cd) (trows tb)) else v))))
         (tcolumns tb)"

definition run_insert :: "string \<Rightarrow> string list \<Rightarrow> val list \<Rightarrow> database \<Rightarrow> thrown + database" where
  "run_insert t cols vals d =
     (case find_table d t of
        None \<Rightarrow> Inl (Error ''no such table'')
      | Some tb \<Rightarrow>
          if \<not> has_columns tb cols then Inl (Error ''no such column'')
          else if violates (tcolumns tb) (trows tb) (stored_row tb (zip cols (map bind vals)))
          then Inl (Error ''constraint failed'')
          else Inr (d\<lparr>tables :=
                 put t (tb\<lparr>trows := trows tb @ [stored_row tb (zip cols (map bind vals))]\<rparr>)
                   (tables d)\<rparr>))"

subsection \<open>WHERE, UPDATE and SELECT\<close>

text \<open>The conditions the adapter writes: \<open>column = ?\<close> and \<open>column IN (?, ...)\<close>, joined by \<open>AND\<close>.\<close>

datatype whr = Eq string val | In string "val list"

fun whr_column :: "whr \<Rightarrow> string" where
  "whr_column (Eq c v) = c"
| "whr_column (In c vs) = c"

fun holds :: "whr \<Rightarrow> obj \<Rightarrow> bool" where
  "holds (Eq c v) r = sql_eq (get r c) v"
| "holds (In c vs) r = list_ex (\<lambda>v. sql_eq (get r c) v) vs"

definition matches :: "whr list \<Rightarrow> obj \<Rightarrow> bool" where
  "matches ws r = list_all (\<lambda>w. holds w r) ws"

text \<open>
  \<open>SET c1 = v1, c2 = v2, ...\<close>: when a column is assigned more than once, SQLite keeps
  the rightmost assignment. Every column of the table keeps its value or gets the
  assigned one.
\<close>

definition assign_row :: "(string \<times> column_definition) list \<Rightarrow> (string \<times> val) list \<Rightarrow> obj \<Rightarrow> obj" where
  "assign_row cols sets r =
     map (\<lambda>cd. (fst cd, (case map_of (rev sets) (fst cd) of None \<Rightarrow> get r (fst cd) | Some v \<Rightarrow> v)))
       cols"

text \<open>
  The constraint check of an \<open>UPDATE\<close>: every row the statement changed is checked
  against the other rows of the table as the statement leaves it.
\<close>

fun conflicts :: "(string \<times> column_definition) list \<Rightarrow> obj list \<Rightarrow> (bool \<times> obj) list \<Rightarrow> bool" where
  "conflicts cols pre [] = False"
| "conflicts cols pre (x # xs) =
     ((fst x \<and> violates cols (pre @ map snd xs) (snd x)) \<or> conflicts cols (pre @ [snd x]) xs)"

definition updated_rows ::
  "(string \<times> column_definition) list \<Rightarrow> (string \<times> val) list \<Rightarrow> whr list \<Rightarrow> obj list
     \<Rightarrow> (bool \<times> obj) list" where
  "updated_rows cols sets ws rows =
     map (\<lambda>r. if matches ws r then (True, assign_row cols sets r) else (False, r)) rows"

definition run_update :: "string \<Rightarrow> (string \<times> val) list \<Rightarrow> whr list \<Rightarrow> database \<Rightarrow> thrown + database" where
  "run_update t sets ws d =
     (case find_table d t of
        None \<Rightarrow> Inl (Error ''no such table'')
      | Some tb \<Rightarrow>
          if \<not> has_columns tb (map fst sets @ map whr_column ws) then Inl (Error ''no such column'')
          else if conflicts (tcolumns tb) [] (updated_rows (tcolumns tb) sets ws (trows tb))
          then Inl (Error ''constraint failed'')
          else Inr (d\<lparr>tables :=
                 put t (tb\<lparr>trows := map snd (updated_rows (tcolumns tb) sets ws (trows tb))\<rparr>) (tables d)\<rparr>))"

text \<open>
  \<open>ORDER BY\<close>: \<open>NULL\<close> sorts first, then numbers, then text (compared byte by byte).
  The sort is a stable insertion sort.
\<close>

fun str_le :: "string \<Rightarrow> string \<Rightarrow> bool" where
  "str_le [] t = True"
| "str_le (a # s) [] = False"
| "str_le (a # s) (b # t) =
     ((of_char a :: nat) < of_char b \<or> ((of_char a :: nat) = of_char b \<and> str_le s t))"

fun val_le :: "val \<Rightarrow> val \<Rightarrow> bool" where
  "val_le (VNum a) (VNum b) = (a \<le> b)"
| "val_le (VStr s) (VStr t) = str_le s t"
| "val_le (VNum a) (VStr t) = True"
| "val_le (VStr s) (VNum b) = False"
| "val_le (VNum a) v = False"
| "val_le (VStr s) v = False"
| "val_le v w = True"

fun insort_by :: "('a \<Rightarrow> 'a \<Rightarrow> bool) \<Rightarrow> 'a \<Rightarrow> 'a list \<Rightarrow> 'a list" where
  "insort_by le x [] = [x]"
| "insort_by le x (y # ys) = (if le x y then x # y # ys else y # insort_by le x ys)"

definition sort_by :: "('a \<Rightarrow> 'a \<Rightarrow> bool) \<Rightarrow> 'a list \<Rightarrow> 'a list" where
  "sort_by le xs = foldr (insort_by le) xs []"

datatype direction = ASC | DESC

definition order_rows :: "string \<Rightarrow> direction \<Rightarrow> obj list \<Rightarrow> obj list" where
  "order_rows c dir rows =
     (case dir of
        ASC \<Rightarrow> sort_by (\<lambda>a b. val_le (get a c) (get b c)) rows
      | DESC \<Rightarrow> sort_by (\<lambda>a b. val_le (get b c) (get a c)) rows)"

text \<open>\<open>LIMIT n OFFSET m\<close>: a negative limit is no limit, a negative offset is none.\<close>

definition limit_rows :: "(int \<times> int) option \<Rightarrow> obj list \<Rightarrow> obj list" where
  "limit_rows lim rows =
     (case lim of
        None \<Rightarrow> rows
      | Some nm \<Rightarrow> (if fst nm < 0 then drop (nat (snd nm)) rows
                   else take (nat (fst nm)) (drop (nat (snd nm)) rows)))"

text \<open>\<open>SELECT * FROM t WHERE ... ORDER BY ... LIMIT ...\<close>.\<close>

definition run_select ::
  "string \<Rightarrow> whr list \<Rightarrow> (string \<times> direction) option \<Rightarrow> (int \<times> int) option \<Rightarrow> database
     \<Rightarrow> thrown + obj list" where
  "run_select t ws ord lim d =
     (case find_table d t of
        None \<Rightarrow> Inl (Error ''no such table'')
      | Some tb \<Rightarrow>
          if \<not> has_columns tb (map whr_column ws @ (case ord of None \<Rightarrow> [] | Some cd \<Rightarrow> [fst cd]))
          then Inl (Error ''no such column'')
          else Inr (limit_rows lim
                 ((case ord of None \<Rightarrow> (\<lambda>rs. rs) | Some cd \<Rightarrow> order_rows (fst cd) (snd cd))
                    (filter (matches ws) (trows tb)))))"

section \<open>The storage adapter (SQLiteAdapter)\<close>

text \<open>
  What the code reads from its environment: the successive results of \<open>Date.now()\<close>
  and of \<open>uuidv4()\<close>, and whether the store refuses a schema statement for a reason of
  its own (SQLite's restrictions on \<open>ADD COLUMN\<close>, a definition it cannot parse); also
  the two conversions of \<open>Date\<close>: \<open>new Date(n).toISOString()\<close>, which throws on a number
  out of range, and \<open>new Date(s).getTime()\<close>, which is \<open>NaN\<close> on a string that is no date.
  The world is the store together with how many clock readings and identifiers have
  been taken, and the statements the migration manager has sent to the store so far.
\<close>

text \<open>
  An identifier argument is a value: TypeScript types it \<open>string\<close>, and the sync manager
  passes whatever the record holds under \<open>id\<close>.
\<close>

datatype ddl =
    CreateMigrationsTable
  | CreateTable string "(string \<times> column_definition) list"
  | AddColumn string string column_definition
  | CreateIndex string string "string list" bool
  | InsertMigration string string int

record env =
  clock :: "nat \<Rightarrow> int"
  uuids :: "nat \<Rightarrow> string"
  rejects :: "database \<Rightarrow> ddl \<Rightarrow> bool"
  toISOString :: "int \<Rightarrow> string option"
  getTime :: "string \<Rightarrow> int option"

record world =
  store :: database
  ticks :: nat
  drawn :: nat
  issued :: "ddl list"

text \<open>
  \<open>insert(tableName, data)\<close>. The record is \<open>{...data, id, created_at: now, updated_at:
  now, synced: false, deleted: false}\<close>: the five system fields are assigned after the
  spread of \<open>data\<close>, so they replace whatever \<open>data\<close> holds under those keys.
\<close>

definition sqlite_insert :: "env \<Rightarrow> string \<Rightarrow> obj \<Rightarrow> world \<Rightarrow> (thrown + string) \<times> world" where
  "sqlite_insert e tableName data w =
     (let ident = uuids e (drawn w);
          now = clock e (ticks w);
          w1 = w\<lparr>ticks := Suc (ticks w), drawn := Suc (drawn w)\<rparr>;
          record = literal (data @
            [(''id'', VStr ident), (''created_at'', VNum now), (''updated_at'', VNum now),
             (''synced'', VBool False), (''deleted'', VBool False)])
      in case run_insert tableName (map fst record) (map snd record) (store w1) of
           Inl err \<Rightarrow> (Inl err, w1)
         | Inr d \<Rightarrow> (Inr ident, w1\<lparr>store := d\<rparr>))"

text \<open>
  \<open>update(tableName, id, data)\<close>. The statement is \<open>UPDATE t SET <k = ? for each key of
  data>, updated_at = ?, synced = 0 WHERE id = ?\<close>. With no key in \<open>data\<close> the text reads
  \<open>SET , updated_at = ?\<close>, which SQLite refuses as a syntax error.
\<close>

definition sqlite_update :: "env \<Rightarrow> string \<Rightarrow> val \<Rightarrow> obj \<Rightarrow> world \<Rightarrow> (thrown + unit) \<times> world" where
  "sqlite_update e tableName ident data w =
     (let now = clock e (ticks w);
          w1 = w\<lparr>ticks := Suc (ticks w)\<rparr>
      in if data = [] then (Inl (Error ''syntax error''), w1)
         else case run_update tableName
                (map (\<lambda>kv. (fst kv, bind (snd kv))) data @
                   [(''updated_at'', VNum now), (''synced'', VNum 0)])
                [Eq ''id'' (bind ident)] (store w1) of
           Inl err \<Rightarrow> (Inl err, w1)
         | Inr d \<Rightarrow> (Inr (), w1\<lparr>store := d\<rparr>))"

text \<open>\<open>delete(tableName, id)\<close>: \<open>UPDATE t SET deleted = 1, synced = 0, updated_at = ? WHERE id = ?\<close>.\<close>

definition sqlite_delete :: "env \<Rightarrow> string \<Rightarrow> val \<Rightarrow> world \<Rightarrow> (thrown + unit) \<times> world" where
  "sqlite_delete e tableName ident w =
     (let now = clock e (ticks w);
          w1 = w\<lparr>ticks := Suc (ticks w)\<rparr>
      in case run_update tableName
                [(''deleted'', VNum 1), (''synced'', VNum 0), (''updated_at'', VNum now)]
                [Eq ''id'' (bind ident)] (store w1) of
           Inl err \<Rightarrow> (Inl err, w1)
         | Inr d \<Rightarrow> (Inr (), w1\<lparr>store := d\<rparr>))"

text \<open>
  \<open>findById(tableName, id)\<close>: \<open>SELECT * FROM t WHERE id = ? AND deleted = 0\<close>, the first
  row or \<open>null\<close>.
\<close>

definition sqlite_findById :: "string \<Rightarrow> val \<Rightarrow> world \<Rightarrow> thrown + obj option" where
  "sqlite_findById tableName ident w =
     (case run_select tableName [Eq ''id'' (bind ident), Eq ''deleted'' (VNum 0)] None None (store w) of
        Inl err \<Rightarrow> Inl err
      | Inr rows \<Rightarrow> Inr (case rows of [] \<Rightarrow> None | r # rs \<Rightarrow> Some r))"



text \<open>\<open>findUnsynced(tableName)\<close>: \<open>SELECT * FROM t WHERE synced = 0 ORDER BY updated_at ASC\<close>.\<close>

definition sqlite_findUnsynced :: "string \<Rightarrow> world \<Rightarrow> thrown + obj list" where
  "sqlite_findUnsynced tableName w =
     run_select tableName [Eq ''synced'' (VNum 0)] (Some (''updated_at'', ASC)) None (store w)"

text \<open>
  \<open>markAsSynced(tableName, ids)\<close>: nothing for an empty list, else \<open>UPDATE t SET synced
  = 1 WHERE id IN (?, ...)\<close>.
\<close>

definition sqlite_markAsSynced :: "string \<Rightarrow> val list \<Rightarrow> world \<Rightarrow> (thrown + unit) \<times> world" where
  "sqlite_markAsSynced tableName ids w =
     (if ids = [] then (Inr (), w)
      else case run_update tableName [(''synced'', VNum 1)] [In ''id'' (map bind ids)] (store w) of
           Inl err \<Rightarrow> (Inl err, w)
         | Inr d \<Rightarrow> (Inr (), w\<lparr>store := d\<rparr>))"

text \<open>The rows of a table (none when there is no such table).\<close>

definition rows_of :: "database \<Rightarrow> string \<Rightarrow> obj list" where
  "rows_of d t = (case find_table d t of None \<Rightarrow> [] | Some tb \<Rightarrow> trows tb)"


section \<open>Sequencing\<close>

text \<open>
  \<open>await\<close> in sequence: a rejected promise ends the function with what it threw; the
  state reached so far stays. A \<open>for ... of\<close> loop whose body awaits.
\<close>

definition and_then :: "(thrown + 'a) \<times> 's \<Rightarrow> ('a \<Rightarrow> 's \<Rightarrow> (thrown + 'b) \<times> 's) \<Rightarrow> (thrown + 'b) \<times> 's" where
  "and_then r k = (case r of (Inl err, s) \<Rightarrow> (Inl err, s) | (Inr a, s) \<Rightarrow> k a s)"

fun for_each :: "('x \<Rightarrow> 's \<Rightarrow> (thrown + unit) \<times> 's) \<Rightarrow> 'x list \<Rightarrow> 's \<Rightarrow> (thrown + unit) \<times> 's" where
  "for_each body [] s = (Inr (), s)"
| "for_each body (x # xs) s = and_then (body x s) (\<lambda>u. for_each body xs)"

section \<open>The schema builder (schema-builder.ts)\<close>

text \<open>
  \<open>column(name, type, options)\<close> stores \<open>{type, ...options}\<close> under the column's name;
  \<open>options\<close> is given here as a column definition whose type is the one passed.
  \<open>index(columns, options)\<close> names the index \<open>idx_<table>_<columns joined by _>\<close> unless a
  name is given. \<open>table(tableName, builder)\<close> declares the five system columns before the
  builder's own.
\<close>

definition plain :: column_definition where
  "plain = \<lparr>ctype = ''TEXT'', primaryKey = False, autoIncrement = False, notNull = False,
            unique = False, defaultValue = None\<rparr>"

definition new_schema :: "string \<Rightarrow> table_schema" where
  "new_schema tableName = \<lparr>name = tableName, columns = [], indexes = []\<rparr>"

definition column :: "string \<Rightarrow> string \<Rightarrow> column_definition \<Rightarrow> table_schema \<Rightarrow> table_schema" where
  "column nm ty options sch = sch\<lparr>columns := put nm (options\<lparr>ctype := ty\<rparr>) (columns sch)\<rparr>"

fun join :: "string \<Rightarrow> string list \<Rightarrow> string" where
  "join sep [] = []"
| "join sep [x] = x"
| "join sep (x # y # ys) = x @ sep @ join sep (y # ys)"

definition index :: "string list \<Rightarrow> string option \<Rightarrow> bool \<Rightarrow> table_schema \<Rightarrow> table_schema" where
  "index cols nm uniq sch =
     sch\<lparr>indexes := indexes sch @
       [\<lparr>iname = (case nm of
                    None \<Rightarrow> ''idx_'' @ name sch @ ''_'' @ join ''_'' cols
                  | Some n \<Rightarrow> (if n = [] then ''idx_'' @ name sch @ ''_'' @ join ''_'' cols else n)),
         icolumns = cols, iunique = uniq\<rparr>]\<rparr>"

definition table_of :: "string \<Rightarrow> (table_schema \<Rightarrow> table_schema) \<Rightarrow> table_schema" where
  "table_of tableName builder =
     builder
       (column ''deleted'' ''BOOLEAN'' (plain\<lparr>defaultValue := Some (VBool False)\<rparr>)
       (column ''synced'' ''BOOLEAN'' (plain\<lparr>defaultValue := Some (VBool False)\<rparr>)
       (column ''updated_at'' ''TIMESTAMP'' (plain\<lparr>notNull := True\<rparr>)
       (column ''created_at'' ''TIMESTAMP'' (plain\<lparr>notNull := True\<rparr>)
       (column ''id'' ''TEXT'' (plain\<lparr>primaryKey := True\<rparr>)
       (new_schema tableName))))))"

section \<open>The migration manager (migration-manager.ts)\<close>

text \<open>\<open>mapType\<close>: the storage type of a declared type; an unknown type is stored as text.\<close>

definition mapType :: "string \<Rightarrow> string" where
  "mapType ty =
     (if ty = ''TEXT'' then ''TEXT''
      else if ty = ''INTEGER'' then ''INTEGER''
      else if ty = ''REAL'' then ''REAL''
      else if ty = ''BOOLEAN'' then ''INTEGER''
      else if ty = ''TIMESTAMP'' then ''INTEGER''
      else if ty = ''DATE'' then ''TEXT''
      else if ty = ''JSONB'' then ''TEXT''
      else ''TEXT'')"

text \<open>
  \<open>buildColumnDefinition\<close> writes the mapped type and every constraint of the declared
  column into the statement, so the store's column has the declared flags and default,
  with the mapped type.
\<close>

definition buildColumnDefinition :: "column_definition \<Rightarrow> column_definition" where
  "buildColumnDefinition def = def\<lparr>ctype := mapType (ctype def)\<rparr>"

text \<open>The columns of \<open>CREATE TABLE IF NOT EXISTS _migrations\<close>.\<close>

definition migrations_columns :: "(string \<times> column_definition) list" where
  "migrations_columns =
     [(''id'', plain\<lparr>ctype := ''INTEGER'', primaryKey := True, autoIncrement := True\<rparr>),
      (''version'', plain\<lparr>ctype := ''INTEGER'', notNull := True\<rparr>),
      (''table_name'', plain\<lparr>notNull := True\<rparr>),
      (''operation'', plain\<lparr>notNull := True\<rparr>),
      (''applied_at'', plain\<lparr>ctype := ''INTEGER'', notNull := True\<rparr>)]"

text \<open>
  What a schema statement does to the store, or the error it fails with. A failed
  statement changes nothing.
  \<^item> \<open>CREATE TABLE IF NOT EXISTS _migrations\<close> does nothing when the table exists.
  \<^item> \<open>CREATE TABLE\<close> fails when the table exists, no column is given or a column name
    is given twice.
  \<^item> \<open>ALTER TABLE ... ADD COLUMN\<close> fails when the table is missing or has the column;
    the rows there get the column's default.
  \<^item> \<open>CREATE INDEX IF NOT EXISTS\<close> does nothing when an index of that name exists, and
    fails when the table or one of the columns is missing.
  \<^item> \<open>INSERT INTO _migrations (version, table_name, operation, applied_at)\<close>.
  Every statement but the first also fails when the store refuses it (\<open>rejects\<close>).
\<close>

fun apply_ddl :: "ddl \<Rightarrow> database \<Rightarrow> thrown + database" where
  "apply_ddl CreateMigrationsTable d =
     (case find_table d ''_migrations'' of
        Some tb \<Rightarrow> Inr d
      | None \<Rightarrow> Inr (d\<lparr>tables := put ''_migrations''
                  \<lparr>tcolumns = migrations_columns, trows = []\<rparr> (tables d)\<rparr>))"
| "apply_ddl (CreateTable t cols) d =
     (case find_table d t of
        Some tb \<Rightarrow> Inl (Error ''table already exists'')
      | None \<Rightarrow> if cols = [] then Inl (Error ''syntax error'')
               else if \<not> distinct (map fst cols) then Inl (Error ''duplicate column name'')
               else Inr (d\<lparr>tables := put t \<lparr>tcolumns = cols, trows = []\<rparr> (tables d)\<rparr>))"
| "apply_ddl (AddColumn t c def) d =
     (case find_table d t of
        None \<Rightarrow> Inl (Error ''no such table'')
      | Some tb \<Rightarrow>
          if c \<in> set (map fst (tcolumns tb)) then Inl (Error ''duplicate column name'')
          else Inr (d\<lparr>tables := put t
                 \<lparr>tcolumns = tcolumns tb @ [(c, def)],
                  trows = map (\<lambda>r. r @ [(c, default_of def)]) (trows tb)\<rparr> (tables d)\<rparr>))"
| "apply_ddl (CreateIndex nm t cols uniq) d =
     (if nm \<in> set (map fst (indices d)) then Inr d
      else case find_table d t of
        None \<Rightarrow> Inl (Error ''no such table'')
      | Some tb \<Rightarrow>
          if \<not> has_columns tb cols then Inl (Error ''no such column'')
          else Inr (d\<lparr>indices := indices d @ [(nm, \<lparr>itable = t, icols = cols, iuniq = uniq\<rparr>)]\<rparr>))"
| "apply_ddl (InsertMigration t operation now) d =
     run_insert ''_migrations'' [''version'', ''table_name'', ''operation'', ''applied_at'']
       [VNum 1, VStr t, VStr operation, VNum now] d"

text \<open>\<open>MigrationManager.execute\<close>: the statement is sent, and takes effect unless it fails.\<close>

definition mig_execute :: "env \<Rightarrow> ddl \<Rightarrow> world \<Rightarrow> (thrown + unit) \<times> world" where
  "mig_execute e stmt w =
     (let w1 = w\<lparr>issued := issued w @ [stmt]\<rparr>
      in if stmt \<noteq> CreateMigrationsTable \<and> rejects e (store w) stmt
         then (Inl (Error ''statement refused''), w1)
         else case apply_ddl stmt (store w) of
                Inl err \<Rightarrow> (Inl err, w1)
              | Inr d \<Rightarrow> (Inr (), w1\<lparr>store := d\<rparr>))"

definition initializeMigrationTable :: "env \<Rightarrow> world \<Rightarrow> (thrown + unit) \<times> world" where
  "initializeMigrationTable e w = mig_execute e CreateMigrationsTable w"

text \<open>\<open>recordMigration\<close>: a log row of version 1, stamped with \<open>Date.now()\<close>.\<close>

definition recordMigration :: "env \<Rightarrow> string \<Rightarrow> string \<Rightarrow> world \<Rightarrow> (thrown + unit) \<times> world" where
  "recordMigration e tableName operation w =
     mig_execute e (InsertMigration tableName operation (clock e (ticks w)))
       (w\<lparr>ticks := Suc (ticks w)\<rparr>)"

text \<open>The three look-ups: \<open>sqlite_master\<close> by table name and by index name, \<open>PRAGMA table_info\<close>.\<close>

definition checkTableExists :: "string \<Rightarrow> world \<Rightarrow> bool" where
  "checkTableExists tableName w = (find_table (store w) tableName \<noteq> None)"

definition checkIndexExists :: "string \<Rightarrow> world \<Rightarrow> bool" where
  "checkIndexExists indexName w = (indexName \<in> set (map fst (indices (store w))))"

definition getTableColumns :: "string \<Rightarrow> world \<Rightarrow> string list" where
  "getTableColumns tableName w =
     (case find_table (store w) tableName of None \<Rightarrow> [] | Some tb \<Rightarrow> map fst (tcolumns tb))"

definition createTable :: "env \<Rightarrow> table_schema \<Rightarrow> world \<Rightarrow> (thrown + unit) \<times> world" where
  "createTable e sch w =
     mig_execute e
       (CreateTable (name sch) (map (\<lambda>cd. (fst cd, buildColumnDefinition (snd cd))) (columns sch))) w"

text \<open>\<open>addColumn\<close>: a failure of the statement is caught and only logged.\<close>

definition addColumn :: "env \<Rightarrow> string \<Rightarrow> string \<Rightarrow> column_definition \<Rightarrow> world \<Rightarrow> (thrown + unit) \<times> world" where
  "addColumn e tableName columnName def w =
     (Inr (), snd (mig_execute e (AddColumn tableName columnName (buildColumnDefinition def)) w))"

definition createIndex :: "env \<Rightarrow> string \<Rightarrow> string \<Rightarrow> string list \<Rightarrow> bool \<Rightarrow> world \<Rightarrow> (thrown + unit) \<times> world" where
  "createIndex e tableName indexName cols uniq w =
     mig_execute e (CreateIndex indexName tableName cols uniq) w"

definition ensureTableExists :: "env \<Rightarrow> table_schema \<Rightarrow> world \<Rightarrow> (thrown + unit) \<times> world" where
  "ensureTableExists e sch w =
     (if \<not> checkTableExists (name sch) w
      then and_then (createTable e sch w) (\<lambda>u. recordMigration e (name sch) ''CREATE_TABLE'')
      else (Inr (), w))"

text \<open>The existing column names are read once, before the loop over the declared columns.\<close>

definition ensureColumnsExist :: "env \<Rightarrow> table_schema \<Rightarrow> world \<Rightarrow> (thrown + unit) \<times> world" where
  "ensureColumnsExist e sch w =
     for_each
       (\<lambda>cd w'. if fst cd \<notin> set (getTableColumns (name sch) w)
                then and_then (addColumn e (name sch) (fst cd) (snd cd) w')
                       (\<lambda>u. recordMigration e (name sch) (''ADD_COLUMN:'' @ fst cd))
                else (Inr (), w'))
       (columns sch) w"

definition ensureIndexesExist :: "env \<Rightarrow> table_schema \<Rightarrow> world \<Rightarrow> (thrown + unit) \<times> world" where
  "ensureIndexesExist e sch w =
     for_each
       (\<lambda>ix w'. if \<not> checkIndexExists (iname ix) w'
                then and_then (createIndex e (name sch) (iname ix) (icolumns ix) (iunique ix) w')
                       (\<lambda>u. recordMigration e (name sch) (''CREATE_INDEX:'' @ iname ix))
                else (Inr (), w'))
       (indexes sch) w"

text \<open>\<open>applyMigrations\<close> over the registry's schemas (\<open>Object.values(SCHEMA_REGISTRY)\<close>).\<close>

definition migrate_schema :: "env \<Rightarrow> table_schema \<Rightarrow> world \<Rightarrow> (thrown + unit) \<times> world" where
  "migrate_schema e sch w =
     and_then (ensureTableExists e sch w) (\<lambda>u w1.
     and_then (ensureColumnsExist e sch w1) (\<lambda>u w2.
     ensureIndexesExist e sch w2))"

definition applyMigrations :: "env \<Rightarrow> table_schema list \<Rightarrow> world \<Rightarrow> (thrown + unit) \<times> world" where
  "applyMigrations e registry w =
     and_then (initializeMigrationTable e w) (\<lambda>u. for_each (migrate_schema e) registry)"

section \<open>The remote adapter (SupabaseAdapter)\<close>

text \<open>
  The remote service, as the adapter sees it through its client: whether a delete or an
  upsert completes without an error, and what a select of the rows modified since a
  time returns (rows, an error result, or an exception).
\<close>

datatype response = Data "obj list" | Failure | Throws thrown

record supabase_client =
  remote_delete :: "string \<Rightarrow> val \<Rightarrow> bool"
  remote_upsert :: "string \<Rightarrow> obj \<Rightarrow> bool"
  remote_select :: "string \<Rightarrow> string \<Rightarrow> response"

definition ends_with :: "string \<Rightarrow> string \<Rightarrow> bool" where
  "ends_with s suffix =
     (length suffix \<le> length s \<and> drop (length s - length suffix) s = suffix)"

definition isTimestampField :: "string \<Rightarrow> bool" where
  "isTimestampField fieldName =
     (fieldName \<in> set [''created_at'', ''updated_at'', ''started_at'', ''completed_at'',
                        ''last_streak_date'']
      \<or> ends_with fieldName ''_at'' \<or> ends_with fieldName ''_time'')"

text \<open>
  \<open>prepareForSupabase\<close>: \<open>synced\<close> is dropped, and every number under a timestamp field
  becomes an ISO string. The result is \<open>None\<close> when a conversion throws.
\<close>

fun for_supabase :: "env \<Rightarrow> obj \<Rightarrow> obj option" where
  "for_supabase e [] = Some []"
| "for_supabase e (kv # rest) =
     (case for_supabase e rest of
        None \<Rightarrow> None
      | Some converted \<Rightarrow>
          (case snd kv of
             VNum n \<Rightarrow>
               (if isTimestampField (fst kv)
                then (case toISOString e n of
                        None \<Rightarrow> None
                      | Some isoText \<Rightarrow> Some ((fst kv, VStr isoText) # converted))
                else Some (kv # converted))
           | _ \<Rightarrow> Some (kv # converted)))"

definition prepareForSupabase :: "env \<Rightarrow> obj \<Rightarrow> obj option" where
  "prepareForSupabase e record = map_option literal (for_supabase e (omit [''synced''] record))"

text \<open>
  \<open>prepareFromSupabase\<close>: starts from \<open>{synced: true}\<close>, and every string under a
  timestamp field becomes a number (\<open>NaN\<close>, read here as \<open>undefined\<close>, when it is no date).
\<close>

definition prepareFromSupabase :: "env \<Rightarrow> obj \<Rightarrow> obj" where
  "prepareFromSupabase e record =
     literal ((''synced'', VBool True) #
       map (\<lambda>kv. case snd kv of
                   VStr s \<Rightarrow> (if isTimestampField (fst kv)
                              then (fst kv, (case getTime e s of None \<Rightarrow> VUndefined | Some n \<Rightarrow> VNum n))
                              else kv)
                 | _ \<Rightarrow> kv) record)"

text \<open>
  \<open>SupabaseAdapter.syncTable\<close>: a deleted record is deleted remotely, any other is
  upserted; a failure is caught per record, and the identifiers of the records that
  went through are returned.
\<close>

fun supabase_syncTable :: "env \<Rightarrow> supabase_client \<Rightarrow> string \<Rightarrow> obj list \<Rightarrow> val list" where
  "supabase_syncTable e cl tableName [] = []"
| "supabase_syncTable e cl tableName (record # rest) =
     (case prepareForSupabase e record of
        None \<Rightarrow> supabase_syncTable e cl tableName rest
      | Some payload \<Rightarrow>
          (if (if truthy (get record ''deleted'')
               then remote_delete cl tableName (get record ''id'')
               else remote_upsert cl tableName payload)
           then get record ''id'' # supabase_syncTable e cl tableName rest
           else supabase_syncTable e cl tableName rest))"

text \<open>
  \<open>downloadTable\<close>: the rows modified at or after \<open>lastSyncTime\<close>, each prepared for
  local storage; an error result gives no rows.
\<close>

definition supabase_downloadTable :: "env \<Rightarrow> supabase_client \<Rightarrow> string \<Rightarrow> int \<Rightarrow> thrown + obj list" where
  "supabase_downloadTable e cl tableName lastSyncTime =
     (case toISOString e lastSyncTime of
        None \<Rightarrow> Inl (Error ''Invalid time value'')
      | Some isoText \<Rightarrow>
          (case remote_select cl tableName isoText of
             Throws err \<Rightarrow> Inl err
           | Failure \<Rightarrow> Inr []
           | Data rows \<Rightarrow> Inr (map (prepareFromSupabase e) rows)))"

section \<open>The sync manager (SyncManager)\<close>

record sync_status =
  lastSync :: "int option"
  pendingCount :: int
  isSyncing :: bool
  error :: "string option"

record manager =
  syncStatus :: sync_status
  sqliteAdapter :: world

text \<open>
  The body of the download loop, for one remote record. With no local row under the
  record's identifier (\<open>findById\<close> sees no deleted row), the record is passed to \<open>insert\<close>
  as \<open>{id, ...data, created_at, updated_at, synced, deleted}\<close>; with a local row that is
  older, it is passed to \<open>update\<close> as \<open>{...data, synced}\<close>, where \<open>data\<close> is the record
  without \<open>id\<close>, \<open>created_at\<close> and \<open>synced\<close>.
\<close>

definition download_record :: "env \<Rightarrow> string \<Rightarrow> obj \<Rightarrow> world \<Rightarrow> (thrown + unit) \<times> world" where
  "download_record e tableName record w =
     (case sqlite_findById tableName (get record ''id'') w of
        Inl err \<Rightarrow> (Inl err, w)
      | Inr None \<Rightarrow>
          and_then
            (sqlite_insert e tableName
               (literal ([(''id'', get record ''id'')] @
                  omit [''id'', ''created_at'', ''updated_at'', ''synced'', ''deleted''] record @
                  [(''created_at'', get record ''created_at''),
                   (''updated_at'', get record ''updated_at''),
                   (''synced'', get record ''synced''),
                   (''deleted'', get record ''deleted'')])) w)
            (\<lambda>new_id w'. (Inr (), w'))
      | Inr (Some existing) \<Rightarrow>
          if js_gt (get record ''updated_at'') (get existing ''updated_at'')
          then sqlite_update e tableName (get record ''id'')
                 (literal (omit [''id'', ''created_at'', ''synced''] record @
                    [(''synced'', get record ''synced'')])) w
          else (Inr (), w))"

text \<open>
  \<open>SyncManager.syncTable\<close>: upload the unsynced rows and mark those that went through,
  then download what changed remotely since \<open>lastSync || 0\<close>. The status is only read.
\<close>

definition sync_syncTable :: "env \<Rightarrow> supabase_client \<Rightarrow> sync_status \<Rightarrow> string \<Rightarrow> world \<Rightarrow> (thrown + unit) \<times> world" where
  "sync_syncTable e cl st tableName w =
     (case sqlite_findUnsynced tableName w of
        Inl err \<Rightarrow> (Inl err, w)
      | Inr unsyncedRecords \<Rightarrow>
          and_then
            (if unsyncedRecords \<noteq> []
             then sqlite_markAsSynced tableName (supabase_syncTable e cl tableName unsyncedRecords) w
             else (Inr (), w))
            (\<lambda>u w1.
               case supabase_downloadTable e cl tableName
                      (case lastSync st of None \<Rightarrow> 0 | Some t \<Rightarrow> t) of
                 Inl err \<Rightarrow> (Inl err, w1)
               | Inr remoteRecords \<Rightarrow> for_each (download_record e tableName) remoteRecords w1))"

text \<open>
  \<open>SyncManager.sync\<close> over \<open>TABLE_NAMES\<close>. A call during a cycle returns at once. Else
  the tables are synced in order; when all went through, \<open>lastSync\<close> is \<open>Date.now()\<close> as
  read then and the pending count is 0; when one threw, the message is kept
  (\<open>"Unknown error"\<close> for what is no \<open>Error\<close>); either way \<open>isSyncing\<close> ends false.
\<close>

definition error_message :: "thrown \<Rightarrow> string" where
  "error_message err = (case err of Error msg \<Rightarrow> msg | NonError \<Rightarrow> ''Unknown error'')"

definition sync_sync :: "env \<Rightarrow> supabase_client \<Rightarrow> string list \<Rightarrow> manager \<Rightarrow> manager" where
  "sync_sync e cl tableNames m =
     (if isSyncing (syncStatus m) then m
      else
        (case for_each (sync_syncTable e cl ((syncStatus m)\<lparr>isSyncing := True, error := None\<rparr>))
                tableNames (sqliteAdapter m) of
           (Inr u, w) \<Rightarrow>
             \<lparr>syncStatus = (syncStatus m)\<lparr>lastSync := Some (clock e (ticks w)), pendingCount := 0,
                             isSyncing := False, error := None\<rparr>,
              sqliteAdapter = w\<lparr>ticks := Suc (ticks w)\<rparr>\<rparr>
         | (Inl err, w) \<Rightarrow>
             \<lparr>syncStatus = (syncStatus m)\<lparr>isSyncing := False, error := Some (error_message err)\<rparr>,
              sqliteAdapter = w\<rparr>))"

section \<open>A small instance\<close>

text \<open>
  An environment whose clock starts at 1000 and advances by one per reading, whose
  identifiers are \<open>u\<close>, \<open>uu\<close>, \<open>uuu\<close>, ..., and whose store refuses what SQLite documents it
  refuses of \<open>ADD COLUMN\<close>: a column with a \<open>PRIMARY KEY\<close> or \<open>UNIQUE\<close> constraint, and a
  \<open>NOT NULL\<close> column without a default on a table that has rows.
\<close>

definition sqlite_refuses :: "database \<Rightarrow> ddl \<Rightarrow> bool" where
  "sqlite_refuses d stmt =
     (case stmt of
        AddColumn t c def \<Rightarrow>
          unique def \<or> primaryKey def \<or> (notNull def \<and> default_of def = VNull \<and> rows_of d t \<noteq> [])
      | _ \<Rightarrow> False)"

definition demo_env :: env where
  "demo_env = \<lparr>clock = (\<lambda>n. 1000 + int n), uuids = (\<lambda>n. replicate (Suc n) CHR ''u''),
      rejects = sqlite_refuses, toISOString = (\<lambda>n. Some ''1970-01-01T00:00:00.000Z''),
      getTime = (\<lambda>s. None)\<rparr>"

text \<open>A table \<open>notes\<close> with one domain column and one index, as \<open>table()\<close> declares it.\<close>

definition notes_schema :: table_schema where
  "notes_schema =
     table_of ''notes'' (\<lambda>t. index [''title''] None False (column ''title'' ''TEXT'' plain t))"

definition notes_table :: table where
  "notes_table =
     \<lparr>tcolumns = map (\<lambda>cd. (fst cd, buildColumnDefinition (snd cd))) (columns notes_schema),
      trows = []\<rparr>"

definition empty_world :: world where
  "empty_world = \<lparr>store = \<lparr>tables = [], indices = []\<rparr>, ticks = 0, drawn = 0, issued = []\<rparr>"

definition notes_world :: world where
  "notes_world = \<lparr>store = \<lparr>tables = [(''notes'', notes_table)], indices = []\<rparr>,
      ticks = 0, drawn = 0, issued = []\<rparr>"

text \<open>
  A remote service that accepts every upload and holds one row of \<open>notes\<close>, and one that
  cannot be reached; a manager at rest over the empty \<open>notes\<close> table, and one in a cycle.
\<close>

definition demo_client :: supabase_client where
  "demo_client =
     \<lparr>remote_delete = (\<lambda>t i. True), remote_upsert = (\<lambda>t payload. True),
      remote_select = (\<lambda>t since. Data [[(''id'', VStr ''r1''), (''title'', VStr ''remote''),
         (''deleted'', VBool False), (''created_at'', VNum 5), (''updated_at'', VNum 7)]])\<rparr>"

definition offline_client :: supabase_client where
  "offline_client =
     \<lparr>remote_delete = (\<lambda>t i. False), remote_upsert = (\<lambda>t payload. False),
      remote_select = (\<lambda>t since. Throws (Error ''Failed to fetch''))\<rparr>"

definition idle_manager :: manager where
  "idle_manager =
     \<lparr>syncStatus = \<lparr>lastSync = Some 500, pendingCount = 3, isSyncing = False, error = None\<rparr>,
      sqliteAdapter = notes_world\<rparr>"

definition busy_manager :: manager where
  "busy_manager =
     \<lparr>syncStatus = \<lparr>lastSync = Some 500, pendingCount = 3, isSyncing = True, error = None\<rparr>,
      sqliteAdapter = notes_world\<rparr>"

text \<open>
  The \<open>notes\<close> table after one local insert, after that row was marked synced, and after
  that row was soft-deleted; and three remote records: one that is new, one that is a
  newer version of the local row, and one for the row that was deleted locally.
\<close>

definition one_note_world :: world where
  "one_note_world = snd (sqlite_insert demo_env ''notes'' [(''title'', VStr ''x'')] notes_world)"

definition synced_note_world :: world where
  "synced_note_world = snd (sqlite_markAsSynced ''notes'' [VStr ''u''] one_note_world)"

definition deleted_note_world :: world where
  "deleted_note_world = snd (sqlite_delete demo_env ''notes'' (VStr ''u'') one_note_world)"

definition remote_note :: obj where
  "remote_note =
     [(''synced'', VBool True), (''id'', VStr ''r1''), (''title'', VStr ''remote''),
      (''deleted'', VBool False), (''created_at'', VNum 5), (''updated_at'', VNum 7)]"

definition newer_remote :: obj where
  "newer_remote =
     [(''synced'', VBool True), (''id'', VStr ''u''), (''title'', VStr ''remote''),
      (''deleted'', VBool False), (''created_at'', VNum 1000), (''updated_at'', VNum 2000)]"

definition deleted_note_row :: obj where
  "deleted_note_row =
     [(''id'', VStr ''u''), (''created_at'', VNum 1000), (''updated_at'', VNum 1001),
      (''synced'', VNum 0), (''deleted'', VNum 1), (''title'', VStr ''x'')]"


section \<open>The schema registry (schemas.ts)\<close>

text \<open>The four tables of \<open>SCHEMA_REGISTRY\<close>, in the order of its keys.\<close>

definition pomodoro_sessions :: table_schema where
  "pomodoro_sessions = table_of ''pomodoro_sessions'' (\<lambda>t.
     index [''status''] None False
    (index [''session_date''] None False
    (column ''efficiency_score'' ''REAL'' (plain\<lparr>defaultValue := Some (VNum 0)\<rparr>)
    (column ''completed_at'' ''TIMESTAMP'' plain
    (column ''started_at'' ''TIMESTAMP'' (plain\<lparr>notNull := True\<rparr>)
    (column ''total_pause_duration'' ''INTEGER'' (plain\<lparr>defaultValue := Some (VNum 0)\<rparr>)
    (column ''pause_count'' ''INTEGER'' (plain\<lparr>defaultValue := Some (VNum 0)\<rparr>)
    (column ''actual_duration'' ''INTEGER'' (plain\<lparr>defaultValue := Some (VNum 0)\<rparr>)
    (column ''planned_duration'' ''INTEGER'' (plain\<lparr>notNull := True\<rparr>)
    (column ''status'' ''TEXT'' (plain\<lparr>notNull := True, defaultValue := Some (VStr ''active'')\<rparr>)
    (column ''session_number'' ''INTEGER'' (plain\<lparr>notNull := True\<rparr>)
    (column ''session_date'' ''DATE'' (plain\<lparr>notNull := True\<rparr>) t))))))))))))"

definition pomodoro_log :: table_schema where
  "pomodoro_log = table_of ''pomodoro_log'' (\<lambda>t.
     index [''focus_score''] None False
    (index [''log_date''] None True
    (column ''completion_rate'' ''REAL'' (plain\<lparr>defaultValue := Some (VNum 0)\<rparr>)
    (column ''total_pause_count'' ''INTEGER'' (plain\<lparr>defaultValue := Some (VNum 0)\<rparr>)
    (column ''average_efficiency'' ''REAL'' (plain\<lparr>defaultValue := Some (VNum 0)\<rparr>)
    (column ''daily_notes'' ''TEXT'' plain
    (column ''focus_score'' ''REAL'' (plain\<lparr>defaultValue := Some (VNum 0)\<rparr>)
    (column ''target_sessions'' ''INTEGER'' (plain\<lparr>notNull := True\<rparr>)
    (column ''total_work_time'' ''INTEGER'' (plain\<lparr>defaultValue := Some (VNum 0)\<rparr>)
    (column ''work_sessions'' ''INTEGER'' (plain\<lparr>defaultValue := Some (VNum 0)\<rparr>)
    (column ''log_date'' ''DATE'' (plain\<lparr>notNull := True, unique := True\<rparr>) t)))))))))))"

definition pomodoro_streak :: table_schema where
  "pomodoro_streak = table_of ''pomodoro_streak'' (\<lambda>t.
     column ''last_streak_date'' ''DATE'' plain
    (column ''total_days_logged'' ''INTEGER'' (plain\<lparr>defaultValue := Some (VNum 0)\<rparr>)
    (column ''best_streak'' ''INTEGER'' (plain\<lparr>defaultValue := Some (VNum 0)\<rparr>)
    (column ''current_streak'' ''INTEGER'' (plain\<lparr>defaultValue := Some (VNum 0)\<rparr>) t))))"

definition app_settings :: table_schema where
  "app_settings = table_of ''app_settings'' (\<lambda>t.
     column ''sessions_before_long_break'' ''INTEGER'' (plain\<lparr>defaultValue := Some (VNum 4)\<rparr>)
    (column ''long_break_duration'' ''INTEGER'' (plain\<lparr>defaultValue := Some (VNum 15)\<rparr>)
    (column ''short_break_duration'' ''INTEGER'' (plain\<lparr>defaultValue := Some (VNum 5)\<rparr>)
    (column ''daily_target_sessions'' ''INTEGER'' (plain\<lparr>defaultValue := Some (VNum 8)\<rparr>)
    (column ''work_session_duration'' ''INTEGER'' (plain\<lparr>defaultValue := Some (VNum 25)\<rparr>) t)))))"

definition SCHEMA_REGISTRY :: "table_schema list" where
  "SCHEMA_REGISTRY = [pomodoro_sessions, pomodoro_log, pomodoro_streak, app_settings]"

text \<open>
  A store left by an earlier version of the application, whose \<open>pomodoro_sessions\<close> had
  no \<open>session_number\<close> yet: the four tables and their indexes exist, the migration log
  has their eight entries, and \<open>pomodoro_sessions\<close> holds one session.
\<close>

definition live_table :: "table_schema \<Rightarrow> table" where
  "live_table sch =
     \<lparr>tcolumns = map (\<lambda>cd. (fst cd, buildColumnDefinition (snd cd))) (columns sch), trows = []\<rparr>"

definition live_index :: "table_schema \<Rightarrow> index_definition \<Rightarrow> string \<times> index_info" where
  "live_index sch ix = (iname ix, \<lparr>itable = name sch, icols = icolumns ix, iuniq = iunique ix\<rparr>)"

definition log_row :: "int \<Rightarrow> string \<Rightarrow> string \<Rightarrow> obj" where
  "log_row n t operation =
     [(''id'', VNum n), (''version'', VNum 1), (''table_name'', VStr t),
      (''operation'', VStr operation), (''applied_at'', VNum (10 + n))]"

definition old_session :: obj where
  "old_session =
     [(''id'', VStr ''s1''), (''created_at'', VNum 20), (''updated_at'', VNum 30),
      (''synced'', VNum 1), (''deleted'', VNum 0), (''session_date'', VStr ''2025-01-01''),
      (''status'', VStr ''completed''), (''planned_duration'', VNum 25),
      (''actual_duration'', VNum 25), (''pause_count'', VNum 0),
      (''total_pause_duration'', VNum 0), (''started_at'', VNum 20),
      (''completed_at'', VNum 30), (''efficiency_score'', VNum 100)]"

definition old_sessions_table :: table where
  "old_sessions_table =
     \<lparr>tcolumns = filter (\<lambda>cd. fst cd \<noteq> ''session_number'')
                   (tcolumns (live_table pomodoro_sessions)),
      trows = [old_session]\<rparr>"

definition old_migrations_table :: table where
  "old_migrations_table =
     \<lparr>tcolumns = migrations_columns, trows =
        [log_row 1 ''pomodoro_sessions'' ''CREATE_TABLE'',
         log_row 2 ''pomodoro_sessions'' ''CREATE_INDEX:idx_pomodoro_sessions_session_date'',
         log_row 3 ''pomodoro_sessions'' ''CREATE_INDEX:idx_pomodoro_sessions_status'',
         log_row 4 ''pomodoro_log'' ''CREATE_TABLE'',
         log_row 5 ''pomodoro_log'' ''CREATE_INDEX:idx_pomodoro_log_log_date'',
         log_row 6 ''pomodoro_log'' ''CREATE_INDEX:idx_pomodoro_log_focus_score'',
         log_row 7 ''pomodoro_streak'' ''CREATE_TABLE'',
         log_row 8 ''app_settings'' ''CREATE_TABLE'']\<rparr>"

definition old_store :: database where
  "old_store =
     \<lparr>tables =
        [(''_migrations'', old_migrations_table),
         (''pomodoro_sessions'', old_sessions_table),
         (''pomodoro_log'', live_table pomodoro_log),
         (''pomodoro_streak'', live_table pomodoro_streak),
         (''app_settings'', live_table app_settings)],
      indices = map (live_index pomodoro_sessions) (indexes pomodoro_sessions) @
                map (live_index pomodoro_log) (indexes pomodoro_log)\<rparr>"

definition old_world :: world where
  "old_world = \<lparr>store = old_store, ticks = 0, drawn = 0, issued = []\<rparr>"

text \<open>The statement that adds the missing column, and the log entry written for it.\<close>

definition add_session_number :: ddl where
  "add_session_number =
     AddColumn ''pomodoro_sessions'' ''session_number''
       (plain\<lparr>ctype := ''INTEGER'', notNull := True\<rparr>)"

definition session_number_entry :: "int \<Rightarrow> int \<Rightarrow> obj" where
  "session_number_entry n now =
     [(''id'', VNum n), (''version'', VNum 1), (''table_name'', VStr ''pomodoro_sessions''),
      (''operation'', VStr ''ADD_COLUMN:session_number''), (''applied_at'', VNum now)]"

definition old_world_migrated :: world where
  "old_world_migrated =
     \<lparr>store = old_store\<lparr>tables := put ''_migrations''
        (old_migrations_table\<lparr>trows := trows old_migrations_table @ [session_number_entry 9 1000]\<rparr>)
        (tables old_store)\<rparr>,
      ticks = 1, drawn = 0,
      issued = [CreateMigrationsTable, add_session_number,
                InsertMigration ''pomodoro_sessions'' ''ADD_COLUMN:session_number'' 1000]\<rparr>"

definition old_world_migrated_again :: world where
  "old_world_migrated_again =
     \<lparr>store = old_store\<lparr>tables := put ''_migrations''
        (old_migrations_table\<lparr>trows := trows old_migrations_table @
           [session_number_entry 9 1000, session_number_entry 10 1001]\<rparr>)
        (tables old_store)\<rparr>,
      ticks = 2, drawn = 0,
      issued = [CreateMigrationsTable, add_session_number,
                InsertMigration ''pomodoro_sessions'' ''ADD_COLUMN:session_number'' 1000,
                CreateMigrationsTable, add_session_number,
                InsertMigration ''pomodoro_sessions'' ''ADD_COLUMN:session_number'' 1001]\<rparr>"

section \<open>Convergence of the store\<close>

text \<open>
  A schema is provisioned in a store when its table and all its indexes exist; it is
  satisfied when, moreover, the table has every declared column. A store has grown
  into another when every table of the first is a table of the second with at least
  its columns, and every index of the first is an index of the second.
\<close>

definition provisioned :: "table_schema \<Rightarrow> database \<Rightarrow> bool" where
  "provisioned sch d =
     (find_table d (name sch) \<noteq> None \<and>
      list_all (\<lambda>ix. iname ix \<in> set (map fst (indices d))) (indexes sch))"

definition columns_present :: "table_schema \<Rightarrow> database \<Rightarrow> bool" where
  "columns_present sch d =
     (case find_table d (name sch) of
        None \<Rightarrow> False
      | Some tb \<Rightarrow> list_all (\<lambda>cd. fst cd \<in> set (map fst (tcolumns tb))) (columns sch))"

definition satisfied :: "table_schema \<Rightarrow> database \<Rightarrow> bool" where
  "satisfied sch d = (provisioned sch d \<and> columns_present sch d)"

definition grows :: "database \<Rightarrow> database \<Rightarrow> bool" where
  "grows d d' =
     ((\<forall>t tb. find_table d t = Some tb \<longrightarrow>
         (\<exists>tb'. find_table d' t = Some tb' \<and>
                set (map fst (tcolumns tb)) \<subseteq> set (map fst (tcolumns tb')))) \<and>
      set (map fst (indices d)) \<subseteq> set (map fst (indices d')))"

definition wgrows :: "world \<Rightarrow> world \<Rightarrow> bool" where
  "wgrows w w' = grows (store w) (store w')"

section \<open>Objects\<close>

lemma map_of_put: "map_of (put k v ps) = (map_of ps)(k \<mapsto> v)"
  by (induction ps) (auto simp: fun_eq_iff)


lemma map_of_foldl_put:
  "map_of (foldl (\<lambda>ob kv. put (fst kv) (snd kv) ob) ob kvs) = map_of ob ++ map_of (rev kvs)"
proof (induction kvs arbitrary: ob)
  case Nil
  then show ?case by simp
next
  case (Cons kv kvs)
  show ?case
    by (simp add: Cons.IH map_of_put map_add_def fun_eq_iff split: option.splits)
qed

lemma map_of_literal: "map_of (literal kvs) = map_of (rev kvs)"
  by (simp add: literal_def map_of_foldl_put)

lemma get_literal: "get (literal kvs) k = (case map_of (rev kvs) k of None \<Rightarrow> VUndefined | Some v \<Rightarrow> v)"
  by (simp add: get_def map_of_literal)

lemma find_table_put: "find_table (d\<lparr>tables := put t tb (tables d)\<rparr>) t' = (if t' = t then Some tb else find_table d t')"
  by (simp add: find_table_def map_of_put)



lemma run_insert_InrD:
  assumes "run_insert t cols vals d = Inr d'"
  obtains tb where "find_table d t = Some tb" and "has_columns tb cols"
    and "\<not> violates (tcolumns tb) (trows tb) (stored_row tb (zip cols (map bind vals)))"
    and "d' = d\<lparr>tables := put t (tb\<lparr>trows := trows tb @ [stored_row tb (zip cols (map bind vals))]\<rparr>) (tables d)\<rparr>"
  using assms by (auto simp: run_insert_def split: option.splits if_splits)




lemma rows_of_put: "rows_of (d\<lparr>tables := put t tb (tables d)\<rparr>) t = trows tb"
  by (simp add: rows_of_def find_table_put)

section \<open>insert\<close>




section \<open>The sync cycle\<close>

lemmas sync_eval = sync_sync_def sync_syncTable_def and_then_def sqlite_findUnsynced_def
  run_select_def find_table_def has_columns_def matches_def limit_rows_def order_rows_def sort_by_def
  supabase_downloadTable_def prepareFromSupabase_def isTimestampField_def ends_with_def
  download_record_def sqlite_findById_def sqlite_insert_def run_insert_def stored_row_def
  violates_def literal_def get_def omit_def is_rowid_def default_of_def sql_eq_def
  notes_world_def notes_table_def notes_schema_def table_of_def column_def index_def new_schema_def
  plain_def buildColumnDefinition_def mapType_def demo_env_def demo_client_def offline_client_def
  idle_manager_def busy_manager_def error_message_def

text \<open>
  Claim C9. A call of \<open>sync()\<close> while a cycle is in progress changes nothing: the status,
  the store, the clock readings and the identifiers drawn are as before (the log line
  is not part of the state).
\<close>

theorem sync_rejected_while_syncing:
  "isSyncing (syncStatus m) \<Longrightarrow> sync_sync e cl tableNames m = m"
  by (simp add: sync_sync_def)

theorem sync_rejected_while_syncing_witness:
  "isSyncing (syncStatus busy_manager) \<and>
   sync_sync demo_env demo_client [''notes''] busy_manager = busy_manager"
proof -
  have h: "isSyncing (syncStatus busy_manager)" by (simp add: busy_manager_def)
  from sync_rejected_while_syncing[OF h] h show ?thesis by simp
qed



text \<open>
  Claim C7, as the code has it. When every table went through, \<open>lastSync\<close> is the clock
  as read after the last table (\<open>Date.now()\<close> is evaluated after the loop), the pending
  count is 0, no error is recorded and the manager is not syncing.
\<close>

theorem sync_success_recorded:
  assumes "\<not> isSyncing (syncStatus m)"
    and "for_each (sync_syncTable e cl ((syncStatus m)\<lparr>isSyncing := True, error := None\<rparr>))
           tableNames (sqliteAdapter m) = (Inr u, w)"
  shows "lastSync (syncStatus (sync_sync e cl tableNames m)) = Some (clock e (ticks w)) \<and>
         pendingCount (syncStatus (sync_sync e cl tableNames m)) = 0 \<and>
         error (syncStatus (sync_sync e cl tableNames m)) = None \<and>
         \<not> isSyncing (syncStatus (sync_sync e cl tableNames m))"
  using assms by (simp add: sync_sync_def)

theorem sync_success_recorded_witness:
  "\<not> isSyncing (syncStatus idle_manager) \<and>
   fst (for_each (sync_syncTable demo_env demo_client
          ((syncStatus idle_manager)\<lparr>isSyncing := True, error := None\<rparr>))
        [''notes''] (sqliteAdapter idle_manager)) = Inr () \<and>
   lastSync (syncStatus (sync_sync demo_env demo_client [''notes''] idle_manager)) = Some 1001 \<and>
   pendingCount (syncStatus (sync_sync demo_env demo_client [''notes''] idle_manager)) = 0"
proof -
  have h1: "\<not> isSyncing (syncStatus idle_manager)" by (simp add: idle_manager_def)
  have f: "fst (for_each (sync_syncTable demo_env demo_client
          ((syncStatus idle_manager)\<lparr>isSyncing := True, error := None\<rparr>))
        [''notes''] (sqliteAdapter idle_manager)) = Inr ()"
    by (simp add: sync_eval Let_def)
  have t: "ticks (snd (for_each (sync_syncTable demo_env demo_client
          ((syncStatus idle_manager)\<lparr>isSyncing := True, error := None\<rparr>))
        [''notes''] (sqliteAdapter idle_manager))) = 1"
    by (simp add: sync_eval Let_def)
  have h2: "for_each (sync_syncTable demo_env demo_client
          ((syncStatus idle_manager)\<lparr>isSyncing := True, error := None\<rparr>))
        [''notes''] (sqliteAdapter idle_manager) =
      (Inr (),
       snd (for_each (sync_syncTable demo_env demo_client
          ((syncStatus idle_manager)\<lparr>isSyncing := True, error := None\<rparr>))
        [''notes''] (sqliteAdapter idle_manager)))"
    using f by (simp add: prod_eq_iff)
  from sync_success_recorded[OF h1 h2] h1 f t show ?thesis
    by (simp add: demo_env_def)
qed

text \<open>
  The claim as the specification words it fails: a cycle that starts when the clock
  reads 1000, downloads one remote row and completes, records 1001, the time read after
  the loop, and not the time at which it started.
\<close>

theorem lastSync_is_not_cycle_start:
  "clock demo_env (ticks (sqliteAdapter idle_manager)) = 1000 \<and>
   error (syncStatus (sync_sync demo_env demo_client [''notes''] idle_manager)) = None \<and>
   lastSync (syncStatus (sync_sync demo_env demo_client [''notes''] idle_manager)) = Some 1001 \<and>
   lastSync (syncStatus (sync_sync demo_env demo_client [''notes''] idle_manager)) \<noteq>
     Some (clock demo_env (ticks (sqliteAdapter idle_manager)))"
  by (simp add: sync_eval Let_def)

section \<open>The download pass\<close>

lemmas adapter_eval = and_then_def
  run_select_def run_update_def updated_rows_def assign_row_def
  find_table_def has_columns_def matches_def limit_rows_def order_rows_def sort_by_def
  download_record_def sqlite_findById_def sqlite_insert_def sqlite_update_def sqlite_delete_def
  sqlite_markAsSynced_def run_insert_def stored_row_def js_gt_def
  violates_def literal_def get_def omit_def is_rowid_def default_of_def sql_eq_def rows_of_def
  notes_world_def notes_table_def notes_schema_def table_of_def column_def index_def new_schema_def
  plain_def buildColumnDefinition_def mapType_def demo_env_def 
  one_note_world_def synced_note_world_def deleted_note_world_def remote_note_def newer_remote_def deleted_note_row_def



text \<open>
  Claim C1 does not hold of the code. The download pass hands a remote record with no
  local row to \<open>insert\<close> with its identifier, timestamps and flags, but \<open>insert\<close> assigns
  its own five system fields after the spread of its argument. Here the remote record
  \<open>r1\<close> (created at 5, updated at 7, synced) is downloaded into the empty table: the row
  stored has the generated identifier \<open>u\<close>, both timestamps 1000 (the local clock) and
  \<open>synced\<close> 0.
\<close>

theorem download_insert_replaces_remote_fields:
  "fst (download_record demo_env ''notes'' remote_note notes_world) = Inr () \<and>
   rows_of (store (snd (download_record demo_env ''notes'' remote_note notes_world))) ''notes'' =
     [[(''id'', VStr ''u''), (''created_at'', VNum 1000), (''updated_at'', VNum 1000),
       (''synced'', VNum 0), (''deleted'', VNum 0), (''title'', VStr ''remote'')]]"
  by (simp add: adapter_eval Let_def)

text \<open>
  Claim C2 does not hold of the code. The download pass hands a newer remote record to
  \<open>update\<close> with \<open>updated_at\<close> and \<open>synced\<close> among its fields, but \<open>update\<close> ends its \<open>SET\<close>
  list with \<open>updated_at = ?, synced = 0\<close>, and the rightmost assignment wins. Here the
  local row \<open>u\<close> (updated at 1000, synced) meets the remote record updated at 2000: the
  row takes the remote title, but its \<open>updated_at\<close> is 1001 (the local clock) and its
  \<open>synced\<close> is 0.
\<close>

theorem download_update_restamps_and_unsyncs:
  "rows_of (store synced_note_world) ''notes'' =
     [[(''id'', VStr ''u''), (''created_at'', VNum 1000), (''updated_at'', VNum 1000),
       (''synced'', VNum 1), (''deleted'', VNum 0), (''title'', VStr ''x'')]] \<and>
   fst (download_record demo_env ''notes'' newer_remote synced_note_world) = Inr () \<and>
   rows_of (store (snd (download_record demo_env ''notes'' newer_remote synced_note_world))) ''notes'' =
     [[(''id'', VStr ''u''), (''created_at'', VNum 1000), (''updated_at'', VNum 1001),
       (''synced'', VNum 0), (''deleted'', VNum 0), (''title'', VStr ''remote'')]]"
  by (simp add: adapter_eval Let_def)




section \<open>UPDATE and SELECT\<close>

lemma put_same: "map_of ps k = Some v \<Longrightarrow> put k v ps = ps"
  by (induction ps) (auto split: if_splits)

lemma map_snd_updated_rows:
  "map snd (updated_rows cols sets ws rows) =
     map (\<lambda>r. if matches ws r then assign_row cols sets r else r) rows"
  by (simp add: updated_rows_def comp_def if_distrib cong: if_cong)

lemma run_update_InrD:
  assumes "run_update t sets ws d = Inr d'"
  obtains tb where "find_table d t = Some tb"
    and "has_columns tb (map fst sets @ map whr_column ws)"
    and "d' = d\<lparr>tables := put t
           (tb\<lparr>trows := map (\<lambda>r. if matches ws r then assign_row (tcolumns tb) sets r else r) (trows tb)\<rparr>)
           (tables d)\<rparr>"
  using assms by (auto simp: run_update_def map_snd_updated_rows split: option.splits if_splits)

lemma get_assign_row:
  assumes "c \<in> fst ` set cols"
  shows "get (assign_row cols sets r) c = (case map_of (rev sets) c of None \<Rightarrow> get r c | Some v \<Rightarrow> v)"
proof -
  have "map_of (map (\<lambda>cd. (fst cd, f (fst cd))) cols) c = (if c \<in> fst ` set cols then Some (f c) else None)"
    for f :: "string \<Rightarrow> val"
    by (induction cols) auto
  from this[of "\<lambda>c. case map_of (rev sets) c of None \<Rightarrow> get r c | Some v \<Rightarrow> v"] assms
  show ?thesis by (simp add: assign_row_def get_def[of "map f xs" for f xs])
qed

lemma conflicts_none:
  "list_all (\<lambda>x. \<not> fst x) xs \<Longrightarrow> \<not> conflicts cols pre xs"
  by (induction xs arbitrary: pre) auto

lemma run_update_no_match:
  assumes tb: "find_table d t = Some tb"
    and hc: "has_columns tb (map fst sets @ map whr_column ws)"
    and none: "list_all (\<lambda>r. \<not> matches ws r) (trows tb)"
  shows "run_update t sets ws d = Inr d"
proof -
  have u: "updated_rows (tcolumns tb) sets ws (trows tb) = map (\<lambda>r. (False, r)) (trows tb)"
    using none by (simp add: updated_rows_def list_all_iff)
  have "\<not> conflicts (tcolumns tb) [] (updated_rows (tcolumns tb) sets ws (trows tb))"
    by (rule conflicts_none) (simp add: u list_all_iff)
  moreover have "put t (tb\<lparr>trows := map snd (updated_rows (tcolumns tb) sets ws (trows tb))\<rparr>) (tables d) = tables d"
    using tb by (simp add: u comp_def put_same find_table_def)
  ultimately show ?thesis using tb hc by (simp add: run_update_def)
qed









section \<open>Soft delete\<close>



section \<open>update\<close>

lemma sqlite_update_InrD:
  assumes "sqlite_update e t i data w = (Inr u, w')"
  obtains tb where "find_table (store w) t = Some tb" and "data \<noteq> []"
    and "has_columns tb (map fst data @ [''updated_at'', ''synced'', ''id''])"
    and "store w' = (store w)\<lparr>tables := put t
           (tb\<lparr>trows := map (\<lambda>r. if sql_eq (get r ''id'') (bind i)
                     then assign_row (tcolumns tb)
                            (map (\<lambda>kv. (fst kv, bind (snd kv))) data @
                               [(''updated_at'', VNum (clock e (ticks w))), (''synced'', VNum 0)]) r
                     else r) (trows tb)\<rparr>) (tables (store w))\<rparr>"
proof -
  from assms have ne: "data \<noteq> []"
    by (auto simp: sqlite_update_def Let_def split: if_splits)
  with assms obtain d where run: "run_update t
        (map (\<lambda>kv. (fst kv, bind (snd kv))) data @
           [(''updated_at'', VNum (clock e (ticks w))), (''synced'', VNum 0)])
        [Eq ''id'' (bind i)] (store w) = Inr d" and w': "store w' = d"
    by (auto simp: sqlite_update_def Let_def split: sum.splits)
  from run show ?thesis
    by (rule run_update_InrD) (rule that, simp_all add: w' ne matches_def has_columns_def comp_def)
qed

lemma map_of_rev_sets:
  "map_of (rev (map (\<lambda>kv. (fst kv, bind (snd kv))) data)) c = map_option bind (map_of (rev data) c)"
proof -
  have "map_of (map (\<lambda>kv. (fst kv, bind (snd kv))) xs) c = map_option bind (map_of xs c)" for xs
    by (induction xs) auto
  from this[of "rev data"] show ?thesis by (simp add: rev_map)
qed

text \<open>
  What an \<open>update\<close> that returns has done. Every row whose identifier is not the given
  one is as it was; in a row under the given identifier, \<open>updated_at\<close> is the time read
  by the call, \<open>synced\<close> is 0, and every other column holds the supplied value (bound as
  a parameter) when \<open>data\<close> supplies one and its old value otherwise. The table's
  columns, the other tables and the indexes are as they were.
\<close>

lemma update_changes_only_supplied_fields:
  assumes "sqlite_update e t i data w = (Inr u, w')"
  shows "\<exists>tb. find_table (store w) t = Some tb \<and>
           find_table (store w') t = Some (tb\<lparr>trows := rows_of (store w') t\<rparr>) \<and>
           list_all2
             (\<lambda>r r'. if sql_eq (get r ''id'') (bind i)
                then get r' ''updated_at'' = VNum (clock e (ticks w)) \<and>
                     get r' ''synced'' = VNum 0 \<and>
                     list_all (\<lambda>c. c = ''updated_at'' \<or> c = ''synced'' \<or>
                                 get r' c = (case map_of (rev data) c of
                                               None \<Rightarrow> get r c | Some v \<Rightarrow> bind v))
                       (map fst (tcolumns tb))
                else r' = r)
             (rows_of (store w) t) (rows_of (store w') t) \<and>
           (\<forall>t'. t' \<noteq> t \<longrightarrow> find_table (store w') t' = find_table (store w) t') \<and>
           indices (store w') = indices (store w)"
proof -
  define sets where "sets = map (\<lambda>kv. (fst kv, bind (snd kv))) data @
                               [(''updated_at'', VNum (clock e (ticks w))), (''synced'', VNum 0)]"
  from assms obtain tb where tb: "find_table (store w) t = Some tb"
    and hc: "has_columns tb (map fst data @ [''updated_at'', ''synced'', ''id''])"
    and w': "store w' = (store w)\<lparr>tables := put t
           (tb\<lparr>trows := map (\<lambda>r. if sql_eq (get r ''id'') (bind i)
                     then assign_row (tcolumns tb) sets r else r) (trows tb)\<rparr>) (tables (store w))\<rparr>"
    unfolding sets_def by (rule sqlite_update_InrD)
  have c_upd: "''updated_at'' \<in> fst ` set (tcolumns tb)" and c_syn: "''synced'' \<in> fst ` set (tcolumns tb)"
    using hc by (simp_all add: has_columns_def)
  have rows: "rows_of (store w) t = trows tb" by (simp add: rows_of_def tb)
  have rows': "rows_of (store w') t = map (\<lambda>r. if sql_eq (get r ''id'') (bind i)
                     then assign_row (tcolumns tb) sets r else r) (trows tb)"
    by (simp add: w' rows_of_put)
  have field: "c = ''updated_at'' \<or> c = ''synced'' \<or>
       get (assign_row (tcolumns tb) sets r) c = (case map_of (rev data) c of None \<Rightarrow> get r c | Some v \<Rightarrow> bind v)"
    if "c \<in> fst ` set (tcolumns tb)" for c r
    by (simp add: get_assign_row[OF that] sets_def map_of_rev_sets split: option.splits)
  have "list_all2
             (\<lambda>r r'. if sql_eq (get r ''id'') (bind i)
                then get r' ''updated_at'' = VNum (clock e (ticks w)) \<and>
                     get r' ''synced'' = VNum 0 \<and>
                     list_all (\<lambda>c. c = ''updated_at'' \<or> c = ''synced'' \<or>
                                 get r' c = (case map_of (rev data) c of
                                               None \<Rightarrow> get r c | Some v \<Rightarrow> bind v))
                       (map fst (tcolumns tb))
                else r' = r)
             (rows_of (store w) t) (rows_of (store w') t)"
    unfolding rows rows' list_all2_map2
    by (rule list_all2_refl)
       (use field in \<open>auto simp: get_assign_row[OF c_upd] get_assign_row[OF c_syn] sets_def
          map_of_rev_sets list_all_iff\<close>)
  moreover have "find_table (store w') t = Some (tb\<lparr>trows := rows_of (store w') t\<rparr>)"
    by (simp add: rows') (simp add: w' find_table_put)
  moreover have "\<forall>t'. t' \<noteq> t \<longrightarrow> find_table (store w') t' = find_table (store w) t'"
    by (simp add: w' find_table_put)
  moreover have "indices (store w') = indices (store w)" by (simp add: w')
  ultimately show ?thesis using tb by blast
qed

text \<open>
  An \<open>update\<close> that supplies at least one field, all of them columns of the table, under
  an identifier that no row has, returns and leaves the store as it was (the clock has
  been read once).
\<close>

lemma update_of_missing_id_changes_nothing:
  assumes tb: "find_table (store w) t = Some tb" and ne: "data \<noteq> []"
    and hc: "has_columns tb (map fst data @ [''updated_at'', ''synced'', ''id''])"
    and none: "list_all (\<lambda>r. \<not> sql_eq (get r ''id'') (bind i)) (trows tb)"
  shows "sqlite_update e t i data w = (Inr (), w\<lparr>ticks := Suc (ticks w)\<rparr>)"
proof -
  have "run_update t
        (map (\<lambda>kv. (fst kv, bind (snd kv))) data @
           [(''updated_at'', VNum (clock e (ticks w))), (''synced'', VNum 0)])
        [Eq ''id'' (bind i)] (store w) = Inr (store w)"
    using hc none by (intro run_update_no_match[OF tb]) (simp_all add: has_columns_def matches_def comp_def)
  then show ?thesis using ne by (simp add: sqlite_update_def Let_def)
qed

text \<open>
  Claim C6 does not hold of the code for an \<open>update\<close> that supplies no field. The text of
  the statement is then \<open>UPDATE t SET , updated_at = ?, synced = 0 WHERE id = ?\<close>, which
  SQLite refuses: the call throws, whether a row has the identifier or not, where the
  claim has it stamp \<open>updated_at\<close> and clear \<open>synced\<close>, or do nothing without an error.
  (\<open>markAsSynced\<close> guards its own empty case; \<open>update\<close> does not.)
\<close>

theorem update_without_fields_is_refused:
  "sqlite_update demo_env ''notes'' (VStr ''u'') [] one_note_world =
     (Inl (Error ''syntax error''), one_note_world\<lparr>ticks := Suc (ticks one_note_world)\<rparr>) \<and>
   sqlite_update demo_env ''notes'' (VStr ''nobody'') [] one_note_world =
     (Inl (Error ''syntax error''), one_note_world\<lparr>ticks := Suc (ticks one_note_world)\<rparr>)"
  by (simp add: sqlite_update_def Let_def)

section \<open>Migrations\<close>

lemma for_each_unchanged:
  "(\<And>x. x \<in> set xs \<Longrightarrow> body x s = (Inr (), s)) \<Longrightarrow> for_each body xs s = (Inr (), s)"
  by (induction xs) (simp_all add: and_then_def)

lemma for_each_Cons_Inr:
  assumes "for_each body (x # xs) s = (Inr u, s')"
  obtains s1 where "body x s = (Inr (), s1)" and "for_each body xs s1 = (Inr u, s')"
  using assms by (auto simp: and_then_def split: prod.splits sum.splits)

lemma for_each_invariant:
  assumes "for_each body xs s = (Inr u, s')" and "P s"
    and "\<And>x t t'. x \<in> set xs \<Longrightarrow> P t \<Longrightarrow> body x t = (Inr (), t') \<Longrightarrow> P t'"
  shows "P s'"
  using assms
proof (induction xs arbitrary: s)
  case Nil
  then show ?case by simp
next
  case (Cons x xs)
  from Cons.prems(1) obtain s1 where b: "body x s = (Inr (), s1)" and r: "for_each body xs s1 = (Inr u, s')"
    by (rule for_each_Cons_Inr)
  have "P s1" using Cons.prems(2) b by (rule Cons.prems(3)[of x, simplified])
  with r show ?case using Cons.prems(3) by (intro Cons.IH) auto
qed

lemma for_each_post:
  assumes "for_each body xs s = (Inr u, s')"
    and est: "\<And>x t t'. x \<in> set xs \<Longrightarrow> body x t = (Inr (), t') \<Longrightarrow> Q x t'"
    and stab: "\<And>x y t t'. x \<in> set xs \<Longrightarrow> y \<in> set xs \<Longrightarrow> Q x t \<Longrightarrow> body y t = (Inr (), t') \<Longrightarrow> Q x t'"
  shows "\<forall>x \<in> set xs. Q x s'"
  using assms
proof (induction xs arbitrary: s)
  case Nil
  then show ?case by simp
next
  case (Cons x xs)
  from Cons.prems(1) obtain s1 where b: "body x s = (Inr (), s1)" and r: "for_each body xs s1 = (Inr u, s')"
    by (rule for_each_Cons_Inr)
  have q: "Q x s1" using Cons.prems(2) b by simp
  have "Q x s'"
    by (rule for_each_invariant[where P = "Q x", OF r q]) (use Cons.prems(3) in auto)
  moreover have "\<forall>y \<in> set xs. Q y s'"
  proof (rule Cons.IH[OF r])
    fix y t t' assume "y \<in> set xs" "body y t = (Inr (), t')"
    then show "Q y t'" using Cons.prems(2)[of y t t'] by simp
  next
    fix y z t t' assume "y \<in> set xs" "z \<in> set xs" "Q y t" "body z t = (Inr (), t')"
    then show "Q y t'" using Cons.prems(3)[of y z t t'] by simp
  qed
  ultimately show ?case by simp
qed

lemma grows_refl: "grows d d"
  by (simp add: grows_def)

lemma grows_trans: "grows a b \<Longrightarrow> grows b c \<Longrightarrow> grows a c"
  unfolding grows_def by (meson subset_trans)

lemma grows_put_new:
  "find_table d t = None \<Longrightarrow> grows d (d\<lparr>tables := put t tb (tables d)\<rparr>)"
  by (auto simp: grows_def find_table_put)

lemma grows_put_wider:
  "find_table d t = Some tb \<Longrightarrow> set (map fst (tcolumns tb)) \<subseteq> set (map fst (tcolumns tb')) \<Longrightarrow>
   grows d (d\<lparr>tables := put t tb' (tables d)\<rparr>)"
  by (auto simp: grows_def find_table_put)

lemma run_insert_grows: "run_insert t cols vals d = Inr d' \<Longrightarrow> grows d d'"
  by (erule run_insert_InrD) (simp add: grows_put_wider)

lemma apply_ddl_grows: "apply_ddl stmt d = Inr d' \<Longrightarrow> grows d d'"
proof (cases stmt)
  case CreateMigrationsTable
  then show "apply_ddl stmt d = Inr d' \<Longrightarrow> grows d d'"
    by (auto simp: grows_refl grows_put_new split: option.splits)
next
  case (CreateTable t cols)
  then show "apply_ddl stmt d = Inr d' \<Longrightarrow> grows d d'"
    by (auto simp: grows_put_new split: option.splits if_splits)
next
  case (AddColumn t c def)
  then show "apply_ddl stmt d = Inr d' \<Longrightarrow> grows d d'"
    by (auto split: option.splits if_splits intro!: grows_put_wider)
next
  case (CreateIndex nm t cols uniq)
  then show "apply_ddl stmt d = Inr d' \<Longrightarrow> grows d d'"
    by (auto simp: grows_refl grows_def find_table_def split: option.splits if_splits)
next
  case (InsertMigration t operation now)
  then show "apply_ddl stmt d = Inr d' \<Longrightarrow> grows d d'"
    by (simp add: run_insert_grows)
qed

lemma mig_execute_grows: "mig_execute e stmt w = (r, w') \<Longrightarrow> grows (store w) (store w')"
  by (auto simp: mig_execute_def Let_def grows_refl simp del: apply_ddl.simps
        split: if_splits sum.splits dest: apply_ddl_grows)

lemma for_each_related:
  assumes step: "\<And>x t r t'. x \<in> set xs \<Longrightarrow> body x t = (r, t') \<Longrightarrow> R t t'"
    and refl: "\<And>a. R a a" and trans: "\<And>a b c. R a b \<Longrightarrow> R b c \<Longrightarrow> R a c"
  shows "for_each body xs s = (r, s') \<Longrightarrow> R s s'"
  using step
proof (induction xs arbitrary: s)
  case Nil
  then show ?case using refl by simp
next
  case (Cons x xs)
  obtain r1 s1 where b: "body x s = (r1, s1)" by (cases "body x s")
  have r1: "R s s1" using Cons.prems(2)[of x s r1 s1] b by simp
  show ?case
  proof (cases r1)
    case (Inl err)
    with Cons.prems(1) b have "s' = s1" by (simp add: and_then_def)
    with r1 show ?thesis by simp
  next
    case (Inr v)
    with Cons.prems(1) b have "for_each body xs s1 = (r, s')" by (simp add: and_then_def)
    then have "R s1 s'" using Cons.prems(2) by (intro Cons.IH) auto
    with r1 show ?thesis by (rule trans)
  qed
qed

lemma and_then_cases:
  assumes "and_then m k = (r, s')"
  obtains (fail) err where "m = (Inl err, s')" and "r = Inl err"
    | (ok) a s1 where "m = (Inr a, s1)" and "k a s1 = (r, s')"
proof (cases m)
  case (Pair r1 s1)
  show ?thesis
  proof (cases r1)
    case (Inl err)
    with Pair assms show ?thesis by (intro fail[of err]) (simp_all add: and_then_def)
  next
    case (Inr a)
    with Pair assms show ?thesis by (intro ok[of a s1]) (simp_all add: and_then_def)
  qed
qed

lemma table_exists_grows: "find_table d t \<noteq> None \<Longrightarrow> grows d d' \<Longrightarrow> find_table d' t \<noteq> None"
  unfolding grows_def by (metis option.distinct(1) not_None_eq)

lemma index_exists_grows:
  "nm \<in> set (map fst (indices d)) \<Longrightarrow> grows d d' \<Longrightarrow> nm \<in> set (map fst (indices d'))"
  unfolding grows_def by blast

lemma provisioned_grows:
  assumes "provisioned sch d" and "grows d d'"
  shows "provisioned sch d'"
proof -
  have "find_table d' (name sch) \<noteq> None"
  proof (rule table_exists_grows[OF _ assms(2)])
    show "find_table d (name sch) \<noteq> None" using assms(1) by (simp add: provisioned_def)
  qed
  moreover have "iname ix \<in> set (map fst (indices d'))" if "ix \<in> set (indexes sch)" for ix
  proof (rule index_exists_grows[OF _ assms(2)])
    show "iname ix \<in> set (map fst (indices d))"
      using assms(1) that by (simp add: provisioned_def list_all_iff)
  qed
  ultimately show ?thesis by (simp add: provisioned_def list_all_iff)
qed

lemma columns_present_grows:
  assumes "columns_present sch d" and "grows d d'"
  shows "columns_present sch d'"
proof -
  from assms(1) obtain tb where tb: "find_table d (name sch) = Some tb"
    and cs: "\<forall>cd \<in> set (columns sch). fst cd \<in> set (map fst (tcolumns tb))"
    by (auto simp: columns_present_def list_all_iff split: option.splits)
  from assms(2) tb obtain tb' where tb': "find_table d' (name sch) = Some tb'"
    and sub: "set (map fst (tcolumns tb)) \<subseteq> set (map fst (tcolumns tb'))"
    unfolding grows_def by blast
  from cs sub have "\<forall>cd \<in> set (columns sch). fst cd \<in> set (map fst (tcolumns tb'))" by blast
  with tb' show ?thesis by (simp add: columns_present_def list_all_iff)
qed

lemma wgrows_refl: "wgrows w w" by (simp add: wgrows_def grows_refl)

lemma wgrows_trans: "wgrows a b \<Longrightarrow> wgrows b c \<Longrightarrow> wgrows a c"
  unfolding wgrows_def by (rule grows_trans)

lemma mig_execute_wgrows: "mig_execute e stmt w = (r, w') \<Longrightarrow> wgrows w w'"
  unfolding wgrows_def by (rule mig_execute_grows)

lemma recordMigration_wgrows: "recordMigration e t operation w = (r, w') \<Longrightarrow> wgrows w w'"
  unfolding recordMigration_def by (drule mig_execute_wgrows) (simp add: wgrows_def)

lemma createTable_wgrows: "createTable e sch w = (r, w') \<Longrightarrow> wgrows w w'"
  unfolding createTable_def by (rule mig_execute_wgrows)

lemma createIndex_wgrows: "createIndex e t nm cols uniq w = (r, w') \<Longrightarrow> wgrows w w'"
  unfolding createIndex_def by (rule mig_execute_wgrows)

lemma addColumn_wgrows: "addColumn e t c def w = (r, w') \<Longrightarrow> wgrows w w'"
  unfolding addColumn_def using mig_execute_wgrows[OF surjective_pairing] by auto

lemma ensureTableExists_wgrows:
  assumes "ensureTableExists e sch w = (r, w')"
  shows "wgrows w w'"
proof (cases "checkTableExists (name sch) w")
  case True
  with assms show ?thesis by (simp add: ensureTableExists_def wgrows_refl)
next
  case False
  with assms have "and_then (createTable e sch w) (\<lambda>u. recordMigration e (name sch) ''CREATE_TABLE'') = (r, w')"
    by (simp add: ensureTableExists_def)
  then show ?thesis
  proof (cases rule: and_then_cases)
    case (fail err)
    then show ?thesis by (simp add: createTable_wgrows)
  next
    case (ok a s1)
    then show ?thesis by (meson createTable_wgrows recordMigration_wgrows wgrows_trans)
  qed
qed

lemma add_step_wgrows:
  assumes "(if c \<notin> cs
           then and_then (addColumn e t c def w)
                  (\<lambda>u. recordMigration e t operation)
           else (Inr (), w)) = (r, w')"
  shows "wgrows w w'"
proof (cases "c \<in> cs")
  case True
  with assms show ?thesis by (simp add: wgrows_refl)
next
  case False
  with assms have "and_then (addColumn e t c def w) (\<lambda>u. recordMigration e t operation) = (r, w')"
    by simp
  then show ?thesis
  proof (cases rule: and_then_cases)
    case (fail err)
    then show ?thesis by (simp add: addColumn_wgrows)
  next
    case (ok a s1)
    then show ?thesis by (meson addColumn_wgrows recordMigration_wgrows wgrows_trans)
  qed
qed

lemma ensureColumnsExist_wgrows: "ensureColumnsExist e sch w = (r, w') \<Longrightarrow> wgrows w w'"
  unfolding ensureColumnsExist_def
  by (erule for_each_related[rotated 3]) (auto intro: add_step_wgrows wgrows_refl wgrows_trans)

lemma index_step_wgrows:
  assumes "(if \<not> checkIndexExists nm w
           then and_then (createIndex e t nm cols uniq w)
                  (\<lambda>u. recordMigration e t operation)
           else (Inr (), w)) = (r, w')"
  shows "wgrows w w'"
proof (cases "checkIndexExists nm w")
  case True
  with assms show ?thesis by (simp add: wgrows_refl)
next
  case False
  with assms have "and_then (createIndex e t nm cols uniq w) (\<lambda>u. recordMigration e t operation) = (r, w')"
    by simp
  then show ?thesis
  proof (cases rule: and_then_cases)
    case (fail err)
    then show ?thesis by (simp add: createIndex_wgrows)
  next
    case (ok a s1)
    then show ?thesis by (meson createIndex_wgrows recordMigration_wgrows wgrows_trans)
  qed
qed

lemma ensureIndexesExist_wgrows: "ensureIndexesExist e sch w = (r, w') \<Longrightarrow> wgrows w w'"
  unfolding ensureIndexesExist_def
  by (erule for_each_related[rotated 3]) (auto intro: index_step_wgrows wgrows_refl wgrows_trans)

lemma migrate_schema_wgrows:
  assumes "migrate_schema e sch w = (r, w')"
  shows "wgrows w w'"
  using assms unfolding migrate_schema_def
proof (cases rule: and_then_cases)
  case (fail err)
  then show ?thesis by (simp add: ensureTableExists_wgrows)
next
  case (ok a s1)
  from ok(2) show ?thesis
  proof (cases rule: and_then_cases)
    case (fail err)
    with ok(1) show ?thesis by (meson ensureTableExists_wgrows ensureColumnsExist_wgrows wgrows_trans)
  next
    case (ok b s2)
    with \<open>ensureTableExists e sch w = (Inr a, s1)\<close> show ?thesis
      by (meson ensureTableExists_wgrows ensureColumnsExist_wgrows ensureIndexesExist_wgrows wgrows_trans)
  qed
qed

lemma mig_execute_Inr:
  "mig_execute e stmt w = (Inr a, w') \<Longrightarrow> apply_ddl stmt (store w) = Inr (store w')"
  by (auto simp: mig_execute_def Let_def simp del: apply_ddl.simps split: if_splits sum.splits)

lemma apply_ddl_CreateTable_Inr:
  "apply_ddl (CreateTable t cols) d = Inr d' \<Longrightarrow> find_table d' t \<noteq> None"
  by (auto simp: find_table_put split: option.splits if_splits)

lemma apply_ddl_CreateIndex_Inr:
  "apply_ddl (CreateIndex nm t cols uniq) d = Inr d' \<Longrightarrow> nm \<in> set (map fst (indices d'))"
  by (auto split: option.splits if_splits)

lemma apply_ddl_CreateMigrationsTable_Inr:
  "apply_ddl CreateMigrationsTable d = Inr d' \<Longrightarrow> find_table d' ''_migrations'' \<noteq> None"
  by (auto simp: find_table_put split: option.splits)

lemma ensureTableExists_Inr:
  assumes "ensureTableExists e sch w = (Inr u, w')"
  shows "find_table (store w') (name sch) \<noteq> None"
proof (cases "checkTableExists (name sch) w")
  case True
  with assms show ?thesis by (auto simp: ensureTableExists_def checkTableExists_def)
next
  case False
  with assms have "and_then (createTable e sch w) (\<lambda>u. recordMigration e (name sch) ''CREATE_TABLE'') = (Inr u, w')"
    by (simp add: ensureTableExists_def)
  then show ?thesis
  proof (cases rule: and_then_cases)
    case (fail err)
    then show ?thesis by simp
  next
    case (ok a s1)
    from ok(1) have "apply_ddl (CreateTable (name sch)
        (map (\<lambda>cd. (fst cd, buildColumnDefinition (snd cd))) (columns sch))) (store w) = Inr (store s1)"
      unfolding createTable_def by (rule mig_execute_Inr)
    then have "find_table (store s1) (name sch) \<noteq> None"
      by (rule apply_ddl_CreateTable_Inr)
    moreover from ok(2) have "grows (store s1) (store w')"
      using recordMigration_wgrows by (simp add: wgrows_def)
    ultimately show ?thesis by (rule table_exists_grows)
  qed
qed

lemma index_step_Inr:
  assumes "(if \<not> checkIndexExists nm w
           then and_then (createIndex e t nm cols uniq w)
                  (\<lambda>u. recordMigration e t operation)
           else (Inr (), w)) = (Inr u, w')"
  shows "nm \<in> set (map fst (indices (store w')))"
proof (cases "checkIndexExists nm w")
  case True
  with assms show ?thesis by (simp add: checkIndexExists_def)
next
  case False
  with assms have "and_then (createIndex e t nm cols uniq w) (\<lambda>u. recordMigration e t operation) = (Inr u, w')"
    by simp
  then show ?thesis
  proof (cases rule: and_then_cases)
    case (fail err)
    then show ?thesis by simp
  next
    case (ok a s1)
    from ok(1) have "apply_ddl (CreateIndex nm t cols uniq) (store w) = Inr (store s1)"
      unfolding createIndex_def by (rule mig_execute_Inr)
    then have "nm \<in> set (map fst (indices (store s1)))"
      by (rule apply_ddl_CreateIndex_Inr)
    moreover from ok(2) have "grows (store s1) (store w')"
      using recordMigration_wgrows by (simp add: wgrows_def)
    ultimately show ?thesis by (rule index_exists_grows)
  qed
qed

lemma ensureIndexesExist_Inr:
  assumes "ensureIndexesExist e sch w = (Inr u, w')"
  shows "\<forall>ix \<in> set (indexes sch). iname ix \<in> set (map fst (indices (store w')))"
  using assms unfolding ensureIndexesExist_def
proof (rule for_each_post)
  fix ix t t'
  assume "(if \<not> checkIndexExists (iname ix) t
        then and_then (createIndex e (name sch) (iname ix) (icolumns ix) (iunique ix) t)
              (\<lambda>u. recordMigration e (name sch) (''CREATE_INDEX:'' @ iname ix))
        else (Inr (), t)) = (Inr (), t')"
  then show "iname ix \<in> set (map fst (indices (store t')))" by (rule index_step_Inr)
next
  fix ix iy t t'
  assume q: "iname ix \<in> set (map fst (indices (store t)))"
    and b: "(if \<not> checkIndexExists (iname iy) t
        then and_then (createIndex e (name sch) (iname iy) (icolumns iy) (iunique iy) t)
              (\<lambda>u. recordMigration e (name sch) (''CREATE_INDEX:'' @ iname iy))
        else (Inr (), t)) = (Inr (), t')"
  from b have "wgrows t t'" by (rule index_step_wgrows)
  with q show "iname ix \<in> set (map fst (indices (store t')))"
    unfolding wgrows_def by (rule index_exists_grows)
qed

lemma migrate_schema_Inr:
  assumes "migrate_schema e sch w = (Inr u, w')"
  shows "provisioned sch (store w')"
  using assms unfolding migrate_schema_def
proof (cases rule: and_then_cases)
  case (fail err)
  then show ?thesis by simp
next
  case (ok a s1)
  from ok(2) show ?thesis
  proof (cases rule: and_then_cases)
    case (fail err)
    then show ?thesis by simp
  next
    case (ok b s2)
    from \<open>ensureTableExists e sch w = (Inr a, s1)\<close> have "find_table (store s1) (name sch) \<noteq> None"
      by (rule ensureTableExists_Inr)
    moreover have "grows (store s1) (store w')"
      using ok ensureColumnsExist_wgrows ensureIndexesExist_wgrows wgrows_trans
      unfolding wgrows_def by (metis wgrows_def)
    ultimately have "find_table (store w') (name sch) \<noteq> None" by (rule table_exists_grows)
    moreover from ok(2) have "\<forall>ix \<in> set (indexes sch). iname ix \<in> set (map fst (indices (store w')))"
      by (rule ensureIndexesExist_Inr)
    ultimately show ?thesis by (simp add: provisioned_def list_all_iff)
  qed
qed

lemma applyMigrations_Inr:
  assumes "applyMigrations e registry w = (Inr u, w')"
  shows "find_table (store w') ''_migrations'' \<noteq> None \<and>
         (\<forall>sch \<in> set registry. provisioned sch (store w'))"
  using assms unfolding applyMigrations_def
proof (cases rule: and_then_cases)
  case (fail err)
  then show ?thesis by simp
next
  case (ok a s1)
  from ok(1) have "apply_ddl CreateMigrationsTable (store w) = Inr (store s1)"
    unfolding initializeMigrationTable_def by (rule mig_execute_Inr)
  then have m: "find_table (store s1) ''_migrations'' \<noteq> None"
    by (rule apply_ddl_CreateMigrationsTable_Inr)
  have "wgrows s1 w'"
    using ok(2) by (rule for_each_related[rotated 3]) (auto intro: migrate_schema_wgrows wgrows_refl wgrows_trans)
  with m have "find_table (store w') ''_migrations'' \<noteq> None"
    unfolding wgrows_def by (rule table_exists_grows)
  moreover have "\<forall>sch \<in> set registry. provisioned sch (store w')"
    using ok(2)
  proof (rule for_each_post)
    fix sch t t' assume "migrate_schema e sch t = (Inr (), t')"
    then show "provisioned sch (store t')" by (rule migrate_schema_Inr)
  next
    fix sch sch' t t' assume "provisioned sch (store t)" "migrate_schema e sch' t = (Inr (), t')"
    then show "provisioned sch (store t')"
      using migrate_schema_wgrows provisioned_grows unfolding wgrows_def by blast
  qed
  ultimately show ?thesis by simp
qed

lemma migrate_schema_satisfied:
  assumes "satisfied sch (store w)"
  shows "migrate_schema e sch w = (Inr (), w)"
proof -
  from assms obtain tb where tb: "find_table (store w) (name sch) = Some tb"
    and cs: "\<forall>cd \<in> set (columns sch). fst cd \<in> set (map fst (tcolumns tb))"
    and ix: "\<forall>ix \<in> set (indexes sch). iname ix \<in> set (map fst (indices (store w)))"
    by (auto simp: satisfied_def provisioned_def columns_present_def list_all_iff split: option.splits)
  have t: "ensureTableExists e sch w = (Inr (), w)"
    by (simp add: ensureTableExists_def checkTableExists_def tb)
  have c: "ensureColumnsExist e sch w = (Inr (), w)"
    unfolding ensureColumnsExist_def
    by (rule for_each_unchanged) (use cs in \<open>simp add: getTableColumns_def tb\<close>)
  have i: "ensureIndexesExist e sch w = (Inr (), w)"
    unfolding ensureIndexesExist_def
    by (rule for_each_unchanged) (use ix in \<open>simp add: checkIndexExists_def\<close>)
  show ?thesis by (simp add: migrate_schema_def t c i and_then_def)
qed

lemma applyMigrations_converged:
  assumes m: "find_table (store w) ''_migrations'' \<noteq> None"
    and sat: "\<forall>sch \<in> set registry. satisfied sch (store w)"
  shows "applyMigrations e registry w = (Inr (), w\<lparr>issued := issued w @ [CreateMigrationsTable]\<rparr>)"
proof -
  have i: "initializeMigrationTable e w = (Inr (), w\<lparr>issued := issued w @ [CreateMigrationsTable]\<rparr>)"
    using m by (auto simp: initializeMigrationTable_def mig_execute_def Let_def)
  have "for_each (migrate_schema e) registry (w\<lparr>issued := issued w @ [CreateMigrationsTable]\<rparr>) =
        (Inr (), w\<lparr>issued := issued w @ [CreateMigrationsTable]\<rparr>)"
    by (rule for_each_unchanged) (use sat in \<open>simp add: migrate_schema_satisfied\<close>)
  with i show ?thesis by (simp add: applyMigrations_def and_then_def)
qed

text \<open>
  Claim C3, as the code has it. When \<open>applyMigrations\<close> has returned and has left every
  declared column of every registry table present, a second call, whatever the clock
  then reads, returns and sends a single statement, the \<open>CREATE TABLE IF NOT EXISTS\<close> of
  the tracking table, which changes nothing: the store, the migration log included, is
  as the first call left it, and no \<open>CREATE TABLE\<close>, \<open>ADD COLUMN\<close> or \<open>CREATE INDEX\<close> of a
  registry table is sent.
\<close>

theorem applyMigrations_twice:
  assumes first: "applyMigrations e registry w = (Inr u, w1)"
    and cols: "\<forall>sch \<in> set registry. columns_present sch (store w1)"
  shows "applyMigrations e' registry w1 = (Inr (), w1\<lparr>issued := issued w1 @ [CreateMigrationsTable]\<rparr>)"
proof (rule applyMigrations_converged)
  from applyMigrations_Inr[OF first]
  show "find_table (store w1) ''_migrations'' \<noteq> None"
    and "\<forall>sch \<in> set registry. satisfied sch (store w1)"
    using cols by (simp_all add: satisfied_def)
qed

lemmas mig_eval = applyMigrations_def initializeMigrationTable_def mig_execute_def migrate_schema_def
  ensureTableExists_def ensureColumnsExist_def ensureIndexesExist_def createTable_def addColumn_def
  createIndex_def recordMigration_def checkTableExists_def checkIndexExists_def getTableColumns_def
  and_then_def find_table_def has_columns_def run_insert_def stored_row_def violates_def is_rowid_def
  next_rowid_def default_of_def sql_eq_def get_def migrations_columns_def plain_def
  buildColumnDefinition_def mapType_def table_of_def column_def index_def new_schema_def
  demo_env_def sqlite_refuses_def rows_of_def empty_world_def notes_schema_def columns_present_def

theorem applyMigrations_twice_witness:
  "fst (applyMigrations demo_env [notes_schema] empty_world) = Inr () \<and>
   columns_present notes_schema (store (snd (applyMigrations demo_env [notes_schema] empty_world))) \<and>
   issued (snd (applyMigrations demo_env [notes_schema] empty_world)) =
     [CreateMigrationsTable,
      CreateTable ''notes'' (map (\<lambda>cd. (fst cd, buildColumnDefinition (snd cd))) (columns notes_schema)),
      InsertMigration ''notes'' ''CREATE_TABLE'' 1000,
      CreateIndex ''idx_notes_title'' ''notes'' [''title''] False,
      InsertMigration ''notes'' ''CREATE_INDEX:idx_notes_title'' 1001] \<and>
   applyMigrations demo_env [notes_schema] (snd (applyMigrations demo_env [notes_schema] empty_world)) =
     (Inr (), (snd (applyMigrations demo_env [notes_schema] empty_world))
        \<lparr>issued := issued (snd (applyMigrations demo_env [notes_schema] empty_world)) @
                     [CreateMigrationsTable]\<rparr>)"
proof -
  define w1 where "w1 = snd (applyMigrations demo_env [notes_schema] empty_world)"
  have f: "fst (applyMigrations demo_env [notes_schema] empty_world) = Inr ()"
    by (simp add: mig_eval Let_def)
  have h1: "applyMigrations demo_env [notes_schema] empty_world = (Inr (), w1)"
    using f by (simp add: prod_eq_iff w1_def)
  have c: "columns_present notes_schema (store w1)"
    unfolding w1_def by (simp add: mig_eval Let_def)
  have i: "issued w1 =
     [CreateMigrationsTable,
      CreateTable ''notes'' (map (\<lambda>cd. (fst cd, buildColumnDefinition (snd cd))) (columns notes_schema)),
      InsertMigration ''notes'' ''CREATE_TABLE'' 1000,
      CreateIndex ''idx_notes_title'' ''notes'' [''title''] False,
      InsertMigration ''notes'' ''CREATE_INDEX:idx_notes_title'' 1001]"
    unfolding w1_def by (simp add: mig_eval Let_def)
  have h2: "\<forall>sch \<in> set [notes_schema]. columns_present sch (store w1)"
    using c by simp
  from applyMigrations_twice[OF h1 h2, of demo_env] f c i show ?thesis
    unfolding w1_def by simp
qed

section \<open>A refused column\<close>

lemma for_each_filter:
  "for_each (\<lambda>x s. if P x then f x s else (Inr (), s)) xs s = for_each f (filter P xs) s"
proof (induction xs arbitrary: s)
  case Nil
  then show ?case by simp
next
  case (Cons x xs)
  show ?case
  proof (cases "P x")
    case True
    then show ?thesis by (simp add: Cons.IH and_then_def split: prod.splits sum.splits)
  next
    case False
    then show ?thesis by (simp add: Cons.IH and_then_def)
  qed
qed

lemma migrate_schema_provisioned:
  assumes p: "provisioned sch (store w)" and c: "ensureColumnsExist e sch w = (Inr u, w')"
  shows "migrate_schema e sch w = (Inr (), w')"
proof -
  have t: "ensureTableExists e sch w = (Inr (), w)"
    using p by (simp add: ensureTableExists_def checkTableExists_def provisioned_def)
  from c have "grows (store w) (store w')"
    using ensureColumnsExist_wgrows by (simp add: wgrows_def)
  with p have "provisioned sch (store w')" by (rule provisioned_grows)
  then have "ensureIndexesExist e sch w' = (Inr (), w')"
    unfolding ensureIndexesExist_def
    by (intro for_each_unchanged) (simp add: checkIndexExists_def provisioned_def list_all_iff)
  with t c show ?thesis by (simp add: migrate_schema_def and_then_def)
qed

lemma satisfied_live:
  assumes "find_table d (name sch) = Some (live_table sch)"
    and "set (map iname (indexes sch)) \<subseteq> set (map fst (indices d))"
  shows "satisfied sch d"
  using assms
  by (auto simp: satisfied_def provisioned_def columns_present_def live_table_def list_all_iff
        intro: rev_image_eqI)

lemma fst_live_index: "fst (live_index sch ix) = iname ix"
  by (simp add: live_index_def)

lemmas schema_eval = plain_def table_of_def column_def index_def new_schema_def
  pomodoro_sessions_def pomodoro_log_def pomodoro_streak_def app_settings_def

lemma registry_names:
  "name pomodoro_sessions = ''pomodoro_sessions''" "name pomodoro_log = ''pomodoro_log''"
  "name pomodoro_streak = ''pomodoro_streak''" "name app_settings = ''app_settings''"
  by (simp_all add: schema_eval)

lemma registry_no_indexes: "indexes pomodoro_streak = []" "indexes app_settings = []"
  by (simp_all add: schema_eval)

lemma old_store_satisfied:
  "satisfied pomodoro_log old_store" "satisfied pomodoro_streak old_store"
  "satisfied app_settings old_store"
  by (rule satisfied_live; auto simp: registry_names registry_no_indexes old_store_def find_table_def fst_live_index)+

lemma old_store_provisioned: "provisioned pomodoro_sessions old_store"
  by (auto simp: provisioned_def registry_names old_store_def find_table_def fst_live_index list_all_iff)

lemma sessions_missing:
  "filter (\<lambda>cd. fst cd \<notin> set (map fst (tcolumns old_sessions_table))) (columns pomodoro_sessions) =
     [(''session_number'', plain\<lparr>ctype := ''INTEGER'', notNull := True\<rparr>)]"
  by (simp add: schema_eval old_sessions_table_def live_table_def)

lemma sessions_columns_step:
  assumes "find_table (store w) ''pomodoro_sessions'' = Some old_sessions_table"
  shows "ensureColumnsExist e pomodoro_sessions w =
     and_then (addColumn e ''pomodoro_sessions'' ''session_number'' (plain\<lparr>ctype := ''INTEGER'', notNull := True\<rparr>) w)
        (\<lambda>u. recordMigration e ''pomodoro_sessions'' ''ADD_COLUMN:session_number'')"
proof -
  have g: "getTableColumns (name pomodoro_sessions) w = map fst (tcolumns old_sessions_table)"
    using assms by (simp add: getTableColumns_def registry_names)
  show ?thesis
    unfolding ensureColumnsExist_def g for_each_filter sessions_missing
    by (simp add: registry_names and_then_def split: prod.splits sum.splits)
qed

lemmas log_eval = addColumn_def recordMigration_def mig_execute_def and_then_def
  demo_env_def sqlite_refuses_def default_of_def rows_of_def find_table_def
  old_store_def old_world_def old_world_migrated_def old_world_migrated_again_def
  old_sessions_table_def old_migrations_table_def
  log_row_def session_number_entry_def migrations_columns_def add_session_number_def
  buildColumnDefinition_def mapType_def plain_def
  run_insert_def has_columns_def stored_row_def violates_def is_rowid_def next_rowid_def
  sql_eq_def get_def

lemma first_sessions:
  "ensureColumnsExist demo_env pomodoro_sessions (old_world\<lparr>issued := issued old_world @ [CreateMigrationsTable]\<rparr>)
     = (Inr (), old_world_migrated)"
  by (subst sessions_columns_step) (simp_all add: log_eval Let_def)

lemma second_sessions:
  "ensureColumnsExist demo_env pomodoro_sessions
     (old_world_migrated\<lparr>issued := issued old_world_migrated @ [CreateMigrationsTable]\<rparr>)
     = (Inr (), old_world_migrated_again)"
  by (subst sessions_columns_step) (simp_all add: log_eval Let_def)

lemma satisfied_grows: "satisfied sch d \<Longrightarrow> grows d d' \<Longrightarrow> satisfied sch d'"
  unfolding satisfied_def using provisioned_grows columns_present_grows by blast

lemma old_registry_call:
  assumes st: "store w = store w0" and m: "find_table (store w0) ''_migrations'' \<noteq> None"
    and p: "provisioned pomodoro_sessions (store w0)"
    and g: "grows old_store (store w0)"
    and c: "ensureColumnsExist demo_env pomodoro_sessions (w\<lparr>issued := issued w @ [CreateMigrationsTable]\<rparr>)
              = (Inr (), w')"
  shows "applyMigrations demo_env SCHEMA_REGISTRY w = (Inr (), w')"
proof -
  let ?w = "w\<lparr>issued := issued w @ [CreateMigrationsTable]\<rparr>"
  have i: "initializeMigrationTable demo_env w = (Inr (), ?w)"
    using m st by (auto simp: initializeMigrationTable_def mig_execute_def Let_def)
  have s: "migrate_schema demo_env pomodoro_sessions ?w = (Inr (), w')"
    by (rule migrate_schema_provisioned[OF _ c]) (simp add: st p)
  have "grows (store ?w) (store w')"
    using ensureColumnsExist_wgrows[OF c] by (simp add: wgrows_def)
  with g have g': "grows old_store (store w')" by (simp add: st grows_trans)
  have r: "migrate_schema demo_env sch w' = (Inr (), w')"
    if "sch \<in> set [pomodoro_log, pomodoro_streak, app_settings]" for sch
    using that old_store_satisfied g'
    by (intro migrate_schema_satisfied) (auto intro: satisfied_grows)
  have "for_each (migrate_schema demo_env) [pomodoro_log, pomodoro_streak, app_settings] w' = (Inr (), w')"
    by (rule for_each_unchanged) (rule r)
  with i s show ?thesis
    by (simp add: applyMigrations_def SCHEMA_REGISTRY_def and_then_def)
qed

text \<open>
  The claim as worded fails. On the store of an earlier version, whose
  \<open>pomodoro_sessions\<close> has a row and no \<open>session_number\<close>, the first call sends \<open>ALTER TABLE
  pomodoro_sessions ADD COLUMN session_number INTEGER NOT NULL\<close>, which SQLite refuses;
  \<open>addColumn\<close> swallows the failure and \<open>ensureColumnsExist\<close> records the migration all the
  same. The second call finds the column missing as before: it sends the same \<open>ADD
  COLUMN\<close> again and appends one more entry to the migration log.
\<close>

theorem refused_column_is_migrated_again:
  "applyMigrations demo_env SCHEMA_REGISTRY old_world = (Inr (), old_world_migrated) \<and>
   applyMigrations demo_env SCHEMA_REGISTRY old_world_migrated = (Inr (), old_world_migrated_again) \<and>
   issued old_world_migrated_again =
     issued old_world_migrated @
       [CreateMigrationsTable, add_session_number,
        InsertMigration ''pomodoro_sessions'' ''ADD_COLUMN:session_number'' 1001] \<and>
   rows_of (store old_world_migrated_again) ''_migrations'' =
     rows_of (store old_world_migrated) ''_migrations'' @ [session_number_entry 10 1001]"
proof -
  have m0: "find_table old_store ''_migrations'' \<noteq> None"
    by (simp add: old_store_def find_table_def)
  have first: "applyMigrations demo_env SCHEMA_REGISTRY old_world = (Inr (), old_world_migrated)"
    by (rule old_registry_call[where ?w0.0 = old_world, OF refl _ _ _ first_sessions])
       (simp_all add: old_world_def m0 old_store_provisioned grows_refl)
  have g1: "grows old_store (store old_world_migrated)"
    using ensureColumnsExist_wgrows[OF first_sessions] by (simp add: wgrows_def old_world_def)
  have m1: "find_table (store old_world_migrated) ''_migrations'' \<noteq> None"
    using m0 g1 by (rule table_exists_grows)
  have p1: "provisioned pomodoro_sessions (store old_world_migrated)"
    using old_store_provisioned g1 by (rule provisioned_grows)
  have second: "applyMigrations demo_env SCHEMA_REGISTRY old_world_migrated = (Inr (), old_world_migrated_again)"
    by (rule old_registry_call[where ?w0.0 = old_world_migrated, OF refl m1 p1 g1 second_sessions])
  have "issued old_world_migrated_again =
     issued old_world_migrated @
       [CreateMigrationsTable, add_session_number,
        InsertMigration ''pomodoro_sessions'' ''ADD_COLUMN:session_number'' 1001]"
    by (simp add: old_world_migrated_def old_world_migrated_again_def)
  moreover have "rows_of (store old_world_migrated_again) ''_migrations'' =
     rows_of (store old_world_migrated) ''_migrations'' @ [session_number_entry 10 1001]"
    by (simp add: old_world_migrated_def old_world_migrated_again_def rows_of_put)
  ultimately show ?thesis using first second by simp
qed

end
